theory Spec2Isabelle
  imports Main "HOL-Library.Word"
begin

unbundle bit_operations_syntax

section \<open>The HD44780U driver behind a PCF8574 backpack (lcd44780.c)\<close>

text \<open>
  The driver keeps three static variables and talks to the display through
  \<open>i2c_write_device\<close> of the pigpio library, one byte per call. The model
  passes the statics around in a record, together with the list of the bytes
  handed to \<open>i2c_write_device\<close> so far (oldest first). The library call is
  not part of the repository: its status is a parameter \<open>dev\<close>, a function
  of the bytes written before and of the byte being written, so that any
  pattern of transport failures can be chosen.

  A C \<open>char\<close> and a \<open>uint8_t\<close> are \<open>8 word\<close>; the usual arithmetic
  conversions compute in \<open>int\<close> and the store back into a \<open>char\<close> keeps
  the low eight bits, which is what the bitwise operations on \<open>8 word\<close>
  give. A C \<open>int\<close> is \<open>int\<close>; every \<open>int\<close> that is stored into an
  eight-bit variable is truncated with \<open>word_of_int\<close>. Calls of
  \<open>nanosleep\<close> and the text printed by \<open>lcd44780error_fprintf\<close> on
  stderr change neither the statics nor the bus and are left out.
\<close>

type_synonym byte = "8 word"

subsection \<open>Error codes and general definitions\<close>

definition ROWTOOLOW :: int where "ROWTOOLOW = - 1000"
definition ROWTOOHIGH :: int where "ROWTOOHIGH = - 1001"
definition COLOUTOFRANGE :: int where "COLOUTOFRANGE = - 1002"
definition COLTOOLOW :: int where "COLTOOLOW = - 1003"
definition COLTOOHIGH :: int where "COLTOOHIGH = - 1004"

definition ORIGIN :: int where "ORIGIN = 1"

subsection \<open>Instruction set and flags\<close>

definition CLEARDISPLAY :: byte where "CLEARDISPLAY = 0x01"
definition CURSORHOME :: byte where "CURSORHOME = 0x02"
definition ENTRYMODESET :: byte where "ENTRYMODESET = 0x04"
definition DISPLAYCONTROL :: byte where "DISPLAYCONTROL = 0x08"
definition CURSORMOVE :: byte where "CURSORMOVE = 0x10"
definition FUNCTIONSET :: byte where "FUNCTIONSET = 0x20"
definition CGRAMSETADDR :: byte where "CGRAMSETADDR = 0x40"
definition DDRAMSETADDR :: byte where "DDRAMSETADDR = 0x80"

definition ENTRYDEC :: byte where "ENTRYDEC = 0x00"
definition ENTRYINC :: byte where "ENTRYINC = 0x01"
definition ENTRYRIGHT :: byte where "ENTRYRIGHT = 0x00"
definition ENTRYLEFT :: byte where "ENTRYLEFT = 0x02"

definition BLINKOFF :: byte where "BLINKOFF = 0x00"
definition BLINKON :: byte where "BLINKON = 0x01"
definition CURSOROFF :: byte where "CURSOROFF = 0x00"
definition CURSORON :: byte where "CURSORON = 0x02"
definition DISPLAYOFF :: byte where "DISPLAYOFF = 0x00"
definition DISPLAYON :: byte where "DISPLAYON = 0x04"

definition CHAR5X8 :: byte where "CHAR5X8 = 0x00"
definition CHAR5X10 :: byte where "CHAR5X10 = 0x04"
definition ONELINE :: byte where "ONELINE = 0x00"
definition TWOLINE :: byte where "TWOLINE = 0x08"
definition FOURBIT :: byte where "FOURBIT = 0x00"
definition EIGHTBIT :: byte where "EIGHTBIT = 0x10"

definition BACKLIGHT :: byte where "BACKLIGHT = 0x08"
definition ENABLE :: byte where "ENABLE = 0x04"
definition READWRITE :: byte where "READWRITE = 0x02"
definition REGISTERSET :: byte where "REGISTERSET = 0x01"

subsection \<open>The statics and the bus\<close>

record lcd =
  bl44780 :: byte
  lcdrows :: byte
  lcdcols :: byte
  bus :: "byte list"

type_synonym i2c = "byte list \<Rightarrow> byte \<Rightarrow> int"

text \<open>The statics as the program starts: \<open>bl44780\<close> is initialised to
  \<open>BACKLIGHT\<close>, the two sizes are zero-initialised, nothing was written.\<close>

definition startup :: lcd where
  "startup = \<lparr>bl44780 = BACKLIGHT, lcdrows = 0, lcdcols = 0, bus = []\<rparr>"

definition rowstart :: "byte list" where
  "rowstart = [0x00, 0x40, 0x14, 0x54]"

text \<open>An index outside \<open>rowstart[4]\<close> is undefined behaviour in C. The model
  makes it a fault that ends the call.\<close>

datatype fault = RowstartOutOfBounds int

definition i2c_write_device :: "i2c \<Rightarrow> lcd \<Rightarrow> byte \<Rightarrow> int \<times> lcd" where
  "i2c_write_device dev s b = (dev (bus s) b, s\<lparr>bus := bus s @ [b]\<rparr>)"

text \<open>A transport on which every write succeeds, for concrete runs.\<close>

definition always_ok :: i2c where
  "always_ok h b = 0"

text \<open>The bytes written between an earlier state and a later one.\<close>

definition written :: "lcd \<Rightarrow> lcd \<Rightarrow> byte list" where
  "written s s' = drop (length (bus s)) (bus s')"

subsection \<open>The nibble transfers\<close>

definition lcd44780writecmd8 :: "i2c \<Rightarrow> lcd \<Rightarrow> byte \<Rightarrow> int \<times> lcd" where
  "lcd44780writecmd8 dev s data =
     (let data1 = (push_bit 4 data AND 0xF0) OR bl44780 s OR ENABLE;
          (i1, s1) = i2c_write_device dev s data1;
          data2 = data1 AND NOT ENABLE
      in i2c_write_device dev s1 data2)"

definition lcd44780writecmd4 :: "i2c \<Rightarrow> lcd \<Rightarrow> byte \<Rightarrow> int \<times> lcd" where
  "lcd44780writecmd4 dev s data =
     (let high = data AND 0xF0;
          low = push_bit 4 data AND 0xF0;
          high1 = high OR bl44780 s OR ENABLE;
          (i1, s1) = i2c_write_device dev s high1;
          high2 = high1 AND NOT ENABLE;
          (i2, s2) = i2c_write_device dev s1 high2;
          low1 = low OR bl44780 s2 OR ENABLE;
          (i3, s3) = i2c_write_device dev s2 low1;
          low2 = low1 AND NOT ENABLE
      in i2c_write_device dev s3 low2)"

definition lcd44780writedata :: "i2c \<Rightarrow> lcd \<Rightarrow> byte \<Rightarrow> int \<times> lcd" where
  "lcd44780writedata dev s data =
     (let high = data AND 0xF0;
          low = push_bit 4 data AND 0xF0;
          high1 = high OR bl44780 s OR REGISTERSET OR ENABLE;
          (i1, s1) = i2c_write_device dev s high1;
          high2 = high1 AND NOT ENABLE;
          (i2, s2) = i2c_write_device dev s1 high2;
          low1 = low OR bl44780 s2 OR REGISTERSET OR ENABLE;
          (i3, s3) = i2c_write_device dev s2 low1;
          low2 = low1 AND NOT ENABLE
      in i2c_write_device dev s3 low2)"

subsection \<open>Cursor, backlight and display mode\<close>

definition lcd44780setpos :: "i2c \<Rightarrow> lcd \<Rightarrow> int \<Rightarrow> int \<Rightarrow> fault + int \<times> lcd" where
  "lcd44780setpos dev s row col =
     (if 0 \<le> row \<and> row < 4 then
        (let curpos = (word_of_int (uint (rowstart ! nat row) + col) :: byte);
             buf = DDRAMSETADDR OR curpos
         in Inr (lcd44780writecmd4 dev s buf))
      else Inl (RowstartOutOfBounds row))"

definition lcd44780clear :: "i2c \<Rightarrow> lcd \<Rightarrow> int \<times> lcd" where
  "lcd44780clear dev s = lcd44780writecmd4 dev s CLEARDISPLAY"

definition lcd44780home :: "i2c \<Rightarrow> lcd \<Rightarrow> int \<times> lcd" where
  "lcd44780home dev s = lcd44780writecmd4 dev s CURSORHOME"

definition lcd44780backlight :: "i2c \<Rightarrow> lcd \<Rightarrow> byte \<Rightarrow> int \<times> lcd" where
  "lcd44780backlight dev s setting =
     (let s1 = (if setting = 0 then s\<lparr>bl44780 := 0x00\<rparr> else s\<lparr>bl44780 := BACKLIGHT\<rparr>)
      in i2c_write_device dev s1 (bl44780 s1))"

definition lcd44780setdisplay :: "i2c \<Rightarrow> lcd \<Rightarrow> byte \<Rightarrow> byte \<Rightarrow> byte \<Rightarrow> int \<times> lcd" where
  "lcd44780setdisplay dev s mode blink cursor =
     (let cmd0 = DISPLAYCONTROL;
          cmd1 = (if mode = 0 then cmd0 OR DISPLAYOFF else cmd0 OR DISPLAYON);
          cmd2 = (if blink = 0 then cmd1 OR BLINKOFF else cmd1 OR BLINKON);
          cmd3 = (if cursor = 0 then cmd2 OR CURSOROFF else cmd2 OR CURSORON)
      in lcd44780writecmd4 dev s cmd3)"

subsection \<open>Writing text\<close>

text \<open>The text argument is the C string without its terminating NUL, so
  \<open>strlen\<close> is \<open>length\<close> (the source keeps it in an \<open>int\<close>; texts
  of \<open>2^31\<close> characters or more are not considered). \<open>strncpy\<close> copies
  the first \<open>len\<close> characters into \<open>buf[lcdcols]\<close>, where \<open>len\<close>
  is at most \<open>lcdcols\<close>, and nothing else of \<open>buf\<close> is read. The
  loop of \<open>lcd44780str\<close> runs \<open>count\<close> from 0 up to \<open>len\<close> and
  sends \<open>buf[count]\<close>; \<open>i\<close> and the statics are carried along.\<close>

function str_loop :: "i2c \<Rightarrow> byte list \<Rightarrow> int \<Rightarrow> int \<Rightarrow> int \<times> lcd \<Rightarrow> int \<times> lcd" where
  "str_loop dev buf len count (i, s) =
     (if count < len
      then str_loop dev buf len (count + 1) (lcd44780writedata dev s (buf ! nat count))
      else (i, s))"
  by pat_completeness auto
termination
  by (relation "measure (\<lambda>(dev, buf, len, count, r). nat (len - count))") auto

definition lcd44780str :: "i2c \<Rightarrow> lcd \<Rightarrow> byte list \<Rightarrow> byte \<Rightarrow> byte \<Rightarrow> fault + int \<times> lcd" where
  "lcd44780str dev s writebuf row col =
     (if uint row < ORIGIN then Inr (ROWTOOLOW, s)
      else if uint row > ORIGIN + uint (lcdrows s) - 1 then Inr (ROWTOOHIGH, s)
      else if uint col < ORIGIN then Inr (COLTOOLOW, s)
      else if uint col > ORIGIN + uint (lcdcols s) - 1 then Inr (COLTOOHIGH, s)
      else
        (let len0 = int (length writebuf);
             len = (if len0 > uint (lcdcols s) - uint col + ORIGIN
                    then uint (lcdcols s) - uint col + ORIGIN else len0);
             buf = take (nat len) writebuf
         in case lcd44780setpos dev s (uint row - ORIGIN) (uint col - ORIGIN) of
              Inl f \<Rightarrow> Inl f
            | Inr r \<Rightarrow> Inr (str_loop dev buf len 0 r)))"

text \<open>\<open>lcd44780chr\<close> copies one character with \<open>strncpy\<close>: the first
  character of the text, or the NUL itself when the text is empty.\<close>

definition lcd44780chr :: "i2c \<Rightarrow> lcd \<Rightarrow> byte list \<Rightarrow> byte \<Rightarrow> byte \<Rightarrow> fault + int \<times> lcd" where
  "lcd44780chr dev s writebuf row col =
     (if uint row < ORIGIN then Inr (ROWTOOLOW, s)
      else if uint row > ORIGIN + uint (lcdrows s) - 1 then Inr (ROWTOOHIGH, s)
      else if uint col < ORIGIN then Inr (COLTOOLOW, s)
      else if uint col > ORIGIN + uint (lcdcols s) - 1 then Inr (COLTOOHIGH, s)
      else
        (let buf0 = (case writebuf of [] \<Rightarrow> 0 | c # cs \<Rightarrow> c)
         in case lcd44780setpos dev s (uint row - ORIGIN) (uint col - ORIGIN) of
              Inl f \<Rightarrow> Inl f
            | Inr (i, s1) \<Rightarrow> Inr (lcd44780writedata dev s1 buf0)))"

subsection \<open>Initialisation\<close>

function init_loop :: "i2c \<Rightarrow> byte \<Rightarrow> int \<Rightarrow> int \<times> lcd \<Rightarrow> int \<times> lcd" where
  "init_loop dev buf count (i, s) =
     (if count \<le> 3
      then init_loop dev buf (count + 1) (lcd44780writecmd8 dev s buf)
      else (i, s))"
  by pat_completeness auto
termination
  by (relation "measure (\<lambda>(dev, buf, count, r). nat (4 - count))") auto

text \<open>\<open>i\<close> is not initialised in the source; it is assigned by the first
  pass of the loop before anything reads it, so the model starts it at 0.\<close>

definition lcd44780init :: "i2c \<Rightarrow> lcd \<Rightarrow> int \<Rightarrow> int \<Rightarrow> int \<times> lcd" where
  "lcd44780init dev s rows cols =
     (let s0 = s\<lparr>lcdrows := word_of_int rows, lcdcols := word_of_int cols\<rparr>;
          buf1 = drop_bit 4 (FUNCTIONSET OR EIGHTBIT) AND 0x0F;
          (i1, s1) = init_loop dev buf1 1 (0, s0);
          buf2 = drop_bit 4 (FUNCTIONSET OR FOURBIT) AND 0x0F;
          (i2, s2) = lcd44780writecmd8 dev s1 buf2;
          buf3 = FUNCTIONSET OR FOURBIT OR TWOLINE;
          (i3, s3) = lcd44780writecmd4 dev s2 buf3;
          buf4 = DISPLAYCONTROL OR DISPLAYOFF OR CURSOROFF OR BLINKOFF;
          (i4, s4) = lcd44780writecmd4 dev s3 buf4;
          buf5 = ENTRYMODESET OR ENTRYRIGHT;
          (i5, s5) = lcd44780writecmd4 dev s4 buf5;
          (i6, s6) = lcd44780clear dev s5;
          buf7 = DISPLAYCONTROL OR DISPLAYON OR BLINKOFF OR CURSOROFF
      in lcd44780writecmd4 dev s6 buf7)"

subsection \<open>Notions used to state the properties\<close>

text \<open>One strobe of a byte is the byte with the enable bit set followed by
  the same byte with the enable bit cleared. \<open>send\<close> hands a list of
  bytes to the bus one after the other and keeps the status of the last
  one; the three transfers of the driver are shown below to be \<open>send\<close>
  of their strobes. \<open>transfers\<close> runs a list of calls of the three
  transfer functions.\<close>

definition strobe :: "byte \<Rightarrow> byte list" where
  "strobe b = [b OR ENABLE, (b OR ENABLE) AND NOT ENABLE]"

definition cmd8_bytes :: "byte \<Rightarrow> byte \<Rightarrow> byte list" where
  "cmd8_bytes bl d = strobe ((push_bit 4 d AND 0xF0) OR bl)"

definition cmd4_bytes :: "byte \<Rightarrow> byte \<Rightarrow> byte list" where
  "cmd4_bytes bl d = strobe ((d AND 0xF0) OR bl) @ strobe ((push_bit 4 d AND 0xF0) OR bl)"

definition data_bytes :: "byte \<Rightarrow> byte \<Rightarrow> byte list" where
  "data_bytes bl d =
     strobe ((d AND 0xF0) OR bl OR REGISTERSET) @ strobe ((push_bit 4 d AND 0xF0) OR bl OR REGISTERSET)"

definition send :: "i2c \<Rightarrow> byte list \<Rightarrow> int \<times> lcd \<Rightarrow> int \<times> lcd" where
  "send dev bs r =
     (if bs = [] then r
      else (dev (bus (snd r) @ butlast bs) (last bs), (snd r)\<lparr>bus := bus (snd r) @ bs\<rparr>))"

definition backlight_ok :: "lcd \<Rightarrow> bool" where
  "backlight_ok s \<longleftrightarrow> bl44780 s = 0x00 \<or> bl44780 s = BACKLIGHT"

datatype transfer = Cmd8 byte | Cmd4 byte | Data byte

fun do_transfer :: "i2c \<Rightarrow> lcd \<Rightarrow> transfer \<Rightarrow> int \<times> lcd" where
  "do_transfer dev s (Cmd8 d) = lcd44780writecmd8 dev s d"
| "do_transfer dev s (Cmd4 d) = lcd44780writecmd4 dev s d"
| "do_transfer dev s (Data d) = lcd44780writedata dev s d"

fun transfers :: "i2c \<Rightarrow> transfer list \<Rightarrow> int \<times> lcd \<Rightarrow> int \<times> lcd" where
  "transfers dev [] r = r"
| "transfers dev (t # ts) r = transfers dev ts (do_transfer dev (snd r) t)"

fun transfer_bytes :: "byte \<Rightarrow> transfer \<Rightarrow> byte list" where
  "transfer_bytes bl (Cmd8 d) = cmd8_bytes bl d"
| "transfer_bytes bl (Cmd4 d) = cmd4_bytes bl d"
| "transfer_bytes bl (Data d) = data_bytes bl d"

text \<open>A list of bus bytes carries the value \<open>v\<close> as two nibble transfers
  when it has four bytes: the first two hold the high nibble of \<open>v\<close> in
  bits 4 to 7, the last two the low nibble; in each pair the first byte has
  the enable bit set, the second has it clear, and the two differ in the
  enable bit and in nothing else.\<close>

definition two_nibble_transfers :: "byte \<Rightarrow> byte list \<Rightarrow> bool" where
  "two_nibble_transfers v bs =
     (case bs of
        [h1, h2, l1, l2] \<Rightarrow>
          drop_bit 4 h1 = drop_bit 4 v \<and> drop_bit 4 l1 = take_bit 4 v \<and>
          h1 AND ENABLE = ENABLE \<and> h2 AND ENABLE = 0 \<and> h1 XOR h2 = ENABLE \<and>
          l1 AND ENABLE = ENABLE \<and> l2 AND ENABLE = 0 \<and> l1 XOR l2 = ENABLE
      | _ \<Rightarrow> False)"

section \<open>Basic facts\<close>

lemmas lcd_consts =
  ROWTOOLOW_def ROWTOOHIGH_def COLOUTOFRANGE_def COLTOOLOW_def COLTOOHIGH_def
  ORIGIN_def CLEARDISPLAY_def CURSORHOME_def ENTRYMODESET_def
  DISPLAYCONTROL_def CURSORMOVE_def FUNCTIONSET_def CGRAMSETADDR_def
  DDRAMSETADDR_def ENTRYDEC_def ENTRYINC_def ENTRYRIGHT_def ENTRYLEFT_def
  BLINKOFF_def BLINKON_def CURSOROFF_def CURSORON_def DISPLAYOFF_def
  DISPLAYON_def CHAR5X8_def CHAR5X10_def ONELINE_def TWOLINE_def FOURBIT_def
  EIGHTBIT_def BACKLIGHT_def ENABLE_def READWRITE_def REGISTERSET_def

subsection \<open>Bytes\<close>

lemma byte_eqI:
  fixes a b :: byte
  assumes "bit a 0 = bit b 0" "bit a 1 = bit b 1" "bit a 2 = bit b 2" "bit a 3 = bit b 3"
     "bit a 4 = bit b 4" "bit a 5 = bit b 5" "bit a 6 = bit b 6" "bit a 7 = bit b 7"
  shows "a = b"
proof (rule bit_word_eqI)
  fix n assume "n < LENGTH(8)"
  then have "n \<in> {0, 1, 2, 3, 4, 5, 6, 7}" by auto
  with assms show "bit a n = bit b n" by auto
qed

lemma byte_bit_high: "8 \<le> n \<Longrightarrow> \<not> bit (d::byte) n"
  by (auto dest: bit_imp_le_length)

lemma strobe_enable:
  "(b OR ENABLE) AND ENABLE = ENABLE"
  "((b OR ENABLE) AND NOT ENABLE) AND ENABLE = 0"
  "(b OR ENABLE) XOR ((b OR ENABLE) AND NOT ENABLE) = ENABLE"
  by (rule byte_eqI; simp add: ENABLE_def bit_simps)+

lemma high_nibble_on_bus:
  "bl = 0x00 \<or> bl = BACKLIGHT \<Longrightarrow> drop_bit 4 (((v AND 0xF0) OR bl) OR ENABLE) = drop_bit 4 v"
  "bl = 0x00 \<or> bl = BACKLIGHT \<Longrightarrow> drop_bit 4 (((v AND 0xF0) OR bl OR REGISTERSET) OR ENABLE) = drop_bit 4 v"
  by (rule byte_eqI; auto simp add: lcd_consts bit_simps byte_bit_high)+

lemma low_nibble_on_bus: "drop_bit 4 (push_bit 4 v) = take_bit 4 (v :: byte)"
  by (rule byte_eqI; auto simp add: bit_simps byte_bit_high)

lemma backlight_bit_of_strobe:
  "b \<in> set (strobe x) \<Longrightarrow> b AND BACKLIGHT = x AND BACKLIGHT"
  by (auto simp add: strobe_def; intro byte_eqI; simp add: lcd_consts bit_simps)

lemma backlight_bit_of_transfer:
  "b \<in> set (transfer_bytes bl t) \<Longrightarrow> b AND BACKLIGHT = bl AND BACKLIGHT"
proof (cases t)
  case (Cmd8 d)
  assume "b \<in> set (transfer_bytes bl t)"
  then have "b AND BACKLIGHT = ((push_bit 4 d AND 0xF0) OR bl) AND BACKLIGHT"
    using Cmd8 by (simp add: cmd8_bytes_def backlight_bit_of_strobe)
  also have "\<dots> = bl AND BACKLIGHT"
    by (rule byte_eqI; simp add: lcd_consts bit_simps)
  finally show ?thesis .
next
  case (Cmd4 d)
  assume "b \<in> set (transfer_bytes bl t)"
  then have "b AND BACKLIGHT = ((d AND 0xF0) OR bl) AND BACKLIGHT \<or>
             b AND BACKLIGHT = ((push_bit 4 d AND 0xF0) OR bl) AND BACKLIGHT"
    using Cmd4 by (auto simp add: cmd4_bytes_def backlight_bit_of_strobe)
  moreover have "((d AND 0xF0) OR bl) AND BACKLIGHT = bl AND BACKLIGHT"
    by (rule byte_eqI; simp add: lcd_consts bit_simps)
  moreover have "((push_bit 4 d AND 0xF0) OR bl) AND BACKLIGHT = bl AND BACKLIGHT"
    by (rule byte_eqI; simp add: lcd_consts bit_simps)
  ultimately show ?thesis by auto
next
  case (Data d)
  assume "b \<in> set (transfer_bytes bl t)"
  then have "b AND BACKLIGHT = ((d AND 0xF0) OR bl OR REGISTERSET) AND BACKLIGHT \<or>
             b AND BACKLIGHT = ((push_bit 4 d AND 0xF0) OR bl OR REGISTERSET) AND BACKLIGHT"
    using Data by (auto simp add: data_bytes_def backlight_bit_of_strobe)
  moreover have "((d AND 0xF0) OR bl OR REGISTERSET) AND BACKLIGHT = bl AND BACKLIGHT"
    by (rule byte_eqI; simp add: lcd_consts bit_simps)
  moreover have "((push_bit 4 d AND 0xF0) OR bl OR REGISTERSET) AND BACKLIGHT = bl AND BACKLIGHT"
    by (rule byte_eqI; simp add: lcd_consts bit_simps)
  ultimately show ?thesis by auto
qed

subsection \<open>The transfers as lists of bytes\<close>

lemma send_Nil [simp]: "send dev [] r = r"
  by (simp add: send_def)

lemma send_send: "send dev cs (send dev bs r) = send dev (bs @ cs) r"
  by (cases "bs = []"; cases "cs = []") (simp_all add: send_def butlast_append)

lemma snd_send: "snd (send dev bs r) = (snd r)\<lparr>bus := bus (snd r) @ bs\<rparr>"
  by (simp add: send_def)

lemma bus_send [simp]: "bus (snd (send dev bs r)) = bus (snd r) @ bs"
  by (simp add: send_def)

lemma bl_send [simp]: "bl44780 (snd (send dev bs r)) = bl44780 (snd r)"
  by (simp add: send_def)

lemma rows_send [simp]: "lcdrows (snd (send dev bs r)) = lcdrows (snd r)"
  by (simp add: send_def)

lemma cols_send [simp]: "lcdcols (snd (send dev bs r)) = lcdcols (snd r)"
  by (simp add: send_def)

lemma fst_send: "bs \<noteq> [] \<Longrightarrow> fst (send dev bs r) = dev (bus (snd r) @ butlast bs) (last bs)"
  by (simp add: send_def)

lemma fst_send_last:
  "bs \<noteq> [] \<Longrightarrow> fst (send dev bs r) = dev (butlast (bus (snd (send dev bs r)))) (last (bus (snd (send dev bs r))))"
  by (simp add: send_def butlast_append)

lemma written_send [simp]: "written s (snd (send dev bs (i, s))) = bs"
  by (simp add: written_def)

lemma written_send_from:
  "bus s0 = bus s \<Longrightarrow> written s (snd (send dev bs (i, s0))) = bs"
  by (simp add: written_def)

lemma writecmd8_send: "lcd44780writecmd8 dev s d = send dev (cmd8_bytes (bl44780 s) d) (i, s)"
  by (simp add: lcd44780writecmd8_def i2c_write_device_def Let_def send_def cmd8_bytes_def strobe_def
        or.assoc)

lemma writecmd4_send: "lcd44780writecmd4 dev s d = send dev (cmd4_bytes (bl44780 s) d) (i, s)"
  by (simp add: lcd44780writecmd4_def i2c_write_device_def Let_def send_def cmd4_bytes_def strobe_def
        or.assoc)

lemma writedata_send: "lcd44780writedata dev s d = send dev (data_bytes (bl44780 s) d) (i, s)"
  by (simp add: lcd44780writedata_def i2c_write_device_def Let_def send_def data_bytes_def strobe_def
        or.assoc)

lemma transfer_send: "do_transfer dev s t = send dev (transfer_bytes (bl44780 s) t) (i, s)"
  by (cases t) (simp_all add: writecmd8_send [of _ _ _ i] writecmd4_send [of _ _ _ i] writedata_send [of _ _ _ i])

lemma transfers_send:
  "transfers dev ts r = send dev (concat (map (transfer_bytes (bl44780 (snd r))) ts)) r"
proof (induction ts arbitrary: r)
  case Nil
  show ?case by simp
next
  case (Cons t ts)
  have "do_transfer dev (snd r) t = send dev (transfer_bytes (bl44780 (snd r)) t) r"
    using transfer_send [of dev "snd r" t "fst r"] by simp
  then show ?case by (simp add: Cons.IH send_send)
qed

lemma str_loop_send:
  "0 \<le> count \<Longrightarrow> len \<le> int (length buf) \<Longrightarrow>
   str_loop dev buf len count (i, s) =
     send dev (concat (map (data_bytes (bl44780 s)) (drop (nat count) (take (nat len) buf)))) (i, s)"
proof (induction dev buf len count "(i, s)" arbitrary: i s rule: str_loop.induct)
  case (1 dev buf len count i s)
  show ?case
  proof (cases "count < len")
    case True
    have w: "lcd44780writedata dev s (buf ! nat count) =
        send dev (data_bytes (bl44780 s) (buf ! nat count)) (i, s)"
      by (rule writedata_send)
    have d: "drop (nat count) (take (nat len) buf) =
        buf ! nat count # drop (nat (count + 1)) (take (nat len) buf)"
      using True "1.prems"
      by (simp add: Cons_nth_drop_Suc [symmetric] nat_add_distrib nat_less_iff)
    let ?r = "send dev (data_bytes (bl44780 s) (buf ! nat count)) (i, s)"
    have "str_loop dev buf len count (i, s) = str_loop dev buf len (count + 1) ?r"
      using True w by simp
    also have "\<dots> = send dev (concat (map (data_bytes (bl44780 (snd ?r)))
        (drop (nat (count + 1)) (take (nat len) buf)))) ?r"
      using "1.hyps" [OF True, of "fst ?r" "snd ?r"] True "1.prems" w by simp
    finally show ?thesis
      by (simp add: d send_send)
  next
    case False
    then show ?thesis using "1.prems" by simp
  qed
qed

lemma written_writecmd8 [simp]:
  "written s (snd (lcd44780writecmd8 dev s v)) = cmd8_bytes (bl44780 s) v"
  by (simp add: writecmd8_send [of _ _ _ 0])

lemma written_writecmd4 [simp]:
  "written s (snd (lcd44780writecmd4 dev s v)) = cmd4_bytes (bl44780 s) v"
  by (simp add: writecmd4_send [of _ _ _ 0])

lemma written_writedata [simp]:
  "written s (snd (lcd44780writedata dev s v)) = data_bytes (bl44780 s) v"
  by (simp add: writedata_send [of _ _ _ 0])

lemma bus_writecmd4: "bus (snd (lcd44780writecmd4 dev s v)) = bus s @ cmd4_bytes (bl44780 s) v"
  by (simp add: writecmd4_send [of _ _ _ 0])

lemma bus_writedata: "bus (snd (lcd44780writedata dev s v)) = bus s @ data_bytes (bl44780 s) v"
  by (simp add: writedata_send [of _ _ _ 0])

lemma length_strobes [simp]:
  "length (cmd8_bytes bl v) = 2" "length (cmd4_bytes bl v) = 4" "length (data_bytes bl v) = 4"
  by (simp_all add: cmd8_bytes_def cmd4_bytes_def data_bytes_def strobe_def)

lemma length_data_frames [simp]: "length (concat (map (data_bytes bl) cs)) = 4 * length cs"
  by (induction cs) simp_all

subsection \<open>Initialisation as a list of bytes\<close>

lemma init_loop_send:
  "init_loop dev buf 1 (i, s) =
     send dev (cmd8_bytes (bl44780 s) buf @ cmd8_bytes (bl44780 s) buf @ cmd8_bytes (bl44780 s) buf) (i, s)"
proof -
  have 1: "init_loop dev buf 4 r = r" for r by (cases r) simp
  have 2: "init_loop dev buf 3 (j, t) = send dev (cmd8_bytes (bl44780 t) buf) (j, t)" for j t
    by (simp add: 1 writecmd8_send [of _ _ _ j])
  have 3: "init_loop dev buf 2 (j, t) =
      send dev (cmd8_bytes (bl44780 t) buf @ cmd8_bytes (bl44780 t) buf) (j, t)" for j t
    using 2 [of "fst (send dev (cmd8_bytes (bl44780 t) buf) (j, t))" "snd (send dev (cmd8_bytes (bl44780 t) buf) (j, t))"]
    by (simp add: writecmd8_send [of _ _ _ j] send_send)
  show ?thesis
    using 3 [of "fst (send dev (cmd8_bytes (bl44780 s) buf) (i, s))" "snd (send dev (cmd8_bytes (bl44780 s) buf) (i, s))"]
    by (simp add: writecmd8_send [of _ _ _ i] send_send)
qed

lemma init_send:
  "lcd44780init dev s rows cols =
     send dev (concat (map (\<lambda>n. strobe (n OR bl44780 s))
        [0x30, 0x30, 0x30, 0x20, 0x20, 0x80, 0x00, 0x80, 0x00, 0x40, 0x00, 0x10, 0x00, 0xC0]))
       (0, s\<lparr>lcdrows := word_of_int rows, lcdcols := word_of_int cols\<rparr>)"
proof -
  let ?s0 = "s\<lparr>lcdrows := word_of_int rows, lcdcols := word_of_int cols\<rparr>"
  have w8: "lcd44780writecmd8 dev (snd r) d = send dev (cmd8_bytes (bl44780 (snd r)) d) r" for r d
    using writecmd8_send [of dev "snd r" d "fst r"] by simp
  have w4: "lcd44780writecmd4 dev (snd r) d = send dev (cmd4_bytes (bl44780 (snd r)) d) r" for r d
    using writecmd4_send [of dev "snd r" d "fst r"] by simp
  show ?thesis
    by (simp add: lcd44780init_def lcd44780clear_def Let_def split_beta init_loop_send w8 w4 send_send
        cmd8_bytes_def cmd4_bytes_def lcd_consts del: init_loop.simps)
qed

lemma written_init:
  "written s (snd (lcd44780init dev s rows cols)) =
     concat (map (\<lambda>n. strobe (n OR bl44780 s))
       [0x30, 0x30, 0x30, 0x20, 0x20, 0x80, 0x00, 0x80, 0x00, 0x40, 0x00, 0x10, 0x00, 0xC0])"
  unfolding init_send by (rule written_send_from) simp

lemma statics_init [simp]:
  "bl44780 (snd (lcd44780init dev s rows cols)) = bl44780 s"
  "lcdrows (snd (lcd44780init dev s rows cols)) = word_of_int rows"
  "lcdcols (snd (lcd44780init dev s rows cols)) = word_of_int cols"
  by (simp_all add: init_send)

subsection \<open>The backlight static\<close>

lemma backlight_static: 
  "bl44780 (snd (lcd44780backlight dev s setting)) = (if setting = 0 then 0x00 else BACKLIGHT)"
  by (simp add: lcd44780backlight_def i2c_write_device_def Let_def)

lemma backlight_ok_startup: "backlight_ok startup"
  by (simp add: backlight_ok_def startup_def)

lemma backlight_ok_init: "backlight_ok s \<Longrightarrow> backlight_ok (snd (lcd44780init dev s rows cols))"
  by (simp add: init_send backlight_ok_def)

subsection \<open>The cursor command\<close>

lemma setpos_in_table:
  "0 \<le> row \<Longrightarrow> row \<le> 3 \<Longrightarrow>
   lcd44780setpos dev s row col =
     Inr (lcd44780writecmd4 dev s (DDRAMSETADDR OR word_of_int (uint (rowstart ! nat row) + col)))"
  by (simp add: lcd44780setpos_def Let_def)

lemma setpos_outside_table:
  "row < 0 \<or> 3 < row \<Longrightarrow> lcd44780setpos dev s row col = Inl (RowstartOutOfBounds row)"
  by (auto simp add: lcd44780setpos_def)

lemma setpos_send:
  "0 \<le> row \<Longrightarrow> row \<le> 3 \<Longrightarrow>
   lcd44780setpos dev s row col =
     Inr (send dev (cmd4_bytes (bl44780 s) (DDRAMSETADDR OR word_of_int (uint (rowstart ! nat row) + col))) (i, s))"
  by (simp add: setpos_in_table writecmd4_send [of _ _ _ i])

lemma setpos_cases:
  "(\<exists>f. lcd44780setpos dev s row col = Inl f) \<or>
   (\<exists>bs. length bs = 4 \<and> lcd44780setpos dev s row col = Inr (send dev bs (0, s)))"
proof (cases "0 \<le> row \<and> row \<le> 3")
  case True
  then have "lcd44780setpos dev s row col =
     Inr (send dev (cmd4_bytes (bl44780 s) (DDRAMSETADDR OR word_of_int (uint (rowstart ! nat row) + col))) (0, s))"
    by (simp add: setpos_send [where i = 0])
  moreover have "length (cmd4_bytes (bl44780 s) (DDRAMSETADDR OR word_of_int (uint (rowstart ! nat row) + col))) = 4"
    by simp
  ultimately show ?thesis by blast
next
  case False
  then show ?thesis by (auto simp add: lcd44780setpos_def)
qed

subsection \<open>Validation and the accepted calls\<close>

lemma str_rejects:
  "uint row < ORIGIN \<Longrightarrow> lcd44780str dev s writebuf row col = Inr (ROWTOOLOW, s)"
  "ORIGIN \<le> uint row \<Longrightarrow> uint row > ORIGIN + uint (lcdrows s) - 1 \<Longrightarrow>
     lcd44780str dev s writebuf row col = Inr (ROWTOOHIGH, s)"
  "ORIGIN \<le> uint row \<Longrightarrow> uint row \<le> ORIGIN + uint (lcdrows s) - 1 \<Longrightarrow> uint col < ORIGIN \<Longrightarrow>
     lcd44780str dev s writebuf row col = Inr (COLTOOLOW, s)"
  "ORIGIN \<le> uint row \<Longrightarrow> uint row \<le> ORIGIN + uint (lcdrows s) - 1 \<Longrightarrow> ORIGIN \<le> uint col \<Longrightarrow>
     uint col > ORIGIN + uint (lcdcols s) - 1 \<Longrightarrow>
     lcd44780str dev s writebuf row col = Inr (COLTOOHIGH, s)"
  by (simp_all add: lcd44780str_def)

lemma chr_rejects:
  "uint row < ORIGIN \<Longrightarrow> lcd44780chr dev s writebuf row col = Inr (ROWTOOLOW, s)"
  "ORIGIN \<le> uint row \<Longrightarrow> uint row > ORIGIN + uint (lcdrows s) - 1 \<Longrightarrow>
     lcd44780chr dev s writebuf row col = Inr (ROWTOOHIGH, s)"
  "ORIGIN \<le> uint row \<Longrightarrow> uint row \<le> ORIGIN + uint (lcdrows s) - 1 \<Longrightarrow> uint col < ORIGIN \<Longrightarrow>
     lcd44780chr dev s writebuf row col = Inr (COLTOOLOW, s)"
  "ORIGIN \<le> uint row \<Longrightarrow> uint row \<le> ORIGIN + uint (lcdrows s) - 1 \<Longrightarrow> ORIGIN \<le> uint col \<Longrightarrow>
     uint col > ORIGIN + uint (lcdcols s) - 1 \<Longrightarrow>
     lcd44780chr dev s writebuf row col = Inr (COLTOOHIGH, s)"
  by (simp_all add: lcd44780chr_def)

lemma str_accepts:
  assumes "ORIGIN \<le> uint row" "uint row \<le> ORIGIN + uint (lcdrows s) - 1"
    "ORIGIN \<le> uint col" "uint col \<le> ORIGIN + uint (lcdcols s) - 1"
  shows "lcd44780str dev s writebuf row col =
     (case lcd44780setpos dev s (uint row - ORIGIN) (uint col - ORIGIN) of
        Inl f \<Rightarrow> Inl f
      | Inr r \<Rightarrow> Inr (send dev (concat (map (data_bytes (bl44780 (snd r)))
           (take (nat (min (int (length writebuf)) (uint (lcdcols s) - uint col + ORIGIN))) writebuf))) r))"
proof -
  let ?m = "uint (lcdcols s) - uint col + ORIGIN"
  let ?n = "min (int (length writebuf)) ?m"
  have ifmin: "(if int (length writebuf) > ?m then ?m else int (length writebuf)) = ?n" by simp
  have le: "?n \<le> int (length (take (nat ?n) writebuf))" by auto
  have loop: "str_loop dev (take (nat ?n) writebuf) ?n 0 r =
      send dev (concat (map (data_bytes (bl44780 (snd r))) (take (nat ?n) writebuf))) r" for r
    using str_loop_send [of 0 ?n "take (nat ?n) writebuf" dev "fst r" "snd r"] le
    by (simp del: str_loop.simps)
  show ?thesis
    using assms unfolding lcd44780str_def Let_def ifmin loop
    by (simp del: str_loop.simps split: sum.split)
qed

lemma chr_accepts:
  assumes "ORIGIN \<le> uint row" "uint row \<le> ORIGIN + uint (lcdrows s) - 1"
    "ORIGIN \<le> uint col" "uint col \<le> ORIGIN + uint (lcdcols s) - 1"
  shows "lcd44780chr dev s writebuf row col =
     (case lcd44780setpos dev s (uint row - ORIGIN) (uint col - ORIGIN) of
        Inl f \<Rightarrow> Inl f
      | Inr r \<Rightarrow> Inr (send dev (data_bytes (bl44780 (snd r)) (case writebuf of [] \<Rightarrow> 0 | c # cs \<Rightarrow> c)) r))"
proof -
  have w: "lcd44780writedata dev (snd r) d = send dev (data_bytes (bl44780 (snd r)) d) r" for r d
    using writedata_send [of dev "snd r" d "fst r"] by simp
  show ?thesis
    using assms unfolding lcd44780chr_def Let_def
    by (simp add: w split_beta split: sum.split)
qed

lemma str_accepted_touches_bus:
  assumes "ORIGIN \<le> uint row" "uint row \<le> ORIGIN + uint (lcdrows s) - 1"
    "ORIGIN \<le> uint col" "uint col \<le> ORIGIN + uint (lcdcols s) - 1"
  shows "lcd44780str dev s writebuf row col \<noteq> Inr (e, s)"
proof -
  from setpos_cases [of dev s "uint row - ORIGIN" "uint col - ORIGIN"] show ?thesis
  proof (elim disjE exE conjE)
    fix f assume "lcd44780setpos dev s (uint row - ORIGIN) (uint col - ORIGIN) = Inl f"
    then show ?thesis by (simp add: str_accepts [OF assms])
  next
    fix bs assume l: "length bs = 4"
      and p: "lcd44780setpos dev s (uint row - ORIGIN) (uint col - ORIGIN) = Inr (send dev bs (0, s))"
    let ?r = "lcd44780str dev s writebuf row col"
    obtain cs where "?r = Inr (send dev cs (send dev bs (0, s)))"
      by (simp add: str_accepts [OF assms] p)
    then have "length (bus (snd (projr ?r))) = length (bus s) + 4 + length cs"
      using l by simp
    then show ?thesis by auto
  qed
qed

lemma chr_accepted_touches_bus:
  assumes "ORIGIN \<le> uint row" "uint row \<le> ORIGIN + uint (lcdrows s) - 1"
    "ORIGIN \<le> uint col" "uint col \<le> ORIGIN + uint (lcdcols s) - 1"
  shows "lcd44780chr dev s writebuf row col \<noteq> Inr (e, s)"
proof -
  from setpos_cases [of dev s "uint row - ORIGIN" "uint col - ORIGIN"] show ?thesis
  proof (elim disjE exE conjE)
    fix f assume "lcd44780setpos dev s (uint row - ORIGIN) (uint col - ORIGIN) = Inl f"
    then show ?thesis by (simp add: chr_accepts [OF assms])
  next
    fix bs assume l: "length bs = 4"
      and p: "lcd44780setpos dev s (uint row - ORIGIN) (uint col - ORIGIN) = Inr (send dev bs (0, s))"
    let ?r = "lcd44780chr dev s writebuf row col"
    obtain cs where "?r = Inr (send dev cs (send dev bs (0, s)))"
      by (simp add: chr_accepts [OF assms] p)
    then have "length (bus (snd (projr ?r))) = length (bus s) + 4 + length cs"
      using l by simp
    then show ?thesis by auto
  qed
qed

lemma str_outcomes:
  "uint row < ORIGIN \<and>
     lcd44780str dev s writebuf row col = Inr (ROWTOOLOW, s) \<and>
     lcd44780chr dev s writebuf row col = Inr (ROWTOOLOW, s) \<or>
   ORIGIN \<le> uint row \<and> uint row > ORIGIN + uint (lcdrows s) - 1 \<and>
     lcd44780str dev s writebuf row col = Inr (ROWTOOHIGH, s) \<and>
     lcd44780chr dev s writebuf row col = Inr (ROWTOOHIGH, s) \<or>
   ORIGIN \<le> uint row \<and> uint row \<le> ORIGIN + uint (lcdrows s) - 1 \<and> uint col < ORIGIN \<and>
     lcd44780str dev s writebuf row col = Inr (COLTOOLOW, s) \<and>
     lcd44780chr dev s writebuf row col = Inr (COLTOOLOW, s) \<or>
   ORIGIN \<le> uint row \<and> uint row \<le> ORIGIN + uint (lcdrows s) - 1 \<and> ORIGIN \<le> uint col \<and>
     uint col > ORIGIN + uint (lcdcols s) - 1 \<and>
     lcd44780str dev s writebuf row col = Inr (COLTOOHIGH, s) \<and>
     lcd44780chr dev s writebuf row col = Inr (COLTOOHIGH, s) \<or>
   ORIGIN \<le> uint row \<and> uint row \<le> ORIGIN + uint (lcdrows s) - 1 \<and> ORIGIN \<le> uint col \<and>
     uint col \<le> ORIGIN + uint (lcdcols s) - 1"
proof (cases "uint row < ORIGIN")
  case True
  then show ?thesis by (simp add: str_rejects chr_rejects)
next
  case r1: False
  show ?thesis
  proof (cases "uint row > ORIGIN + uint (lcdrows s) - 1")
    case True
    with r1 show ?thesis by (simp add: str_rejects chr_rejects)
  next
    case r2: False
    show ?thesis
    proof (cases "uint col < ORIGIN")
      case True
      with r1 r2 show ?thesis by (simp add: str_rejects chr_rejects)
    next
      case c1: False
      show ?thesis
      proof (cases "uint col > ORIGIN + uint (lcdcols s) - 1")
        case True
        with r1 r2 c1 show ?thesis by (simp add: str_rejects chr_rejects)
      next
        case False
        with r1 r2 c1 show ?thesis by simp
      qed
    qed
  qed
qed

lemma str_chr_in_table:
  assumes "ORIGIN \<le> uint row" "uint row \<le> ORIGIN + uint (lcdrows s) - 1" "uint row \<le> 4"
    "ORIGIN \<le> uint col" "uint col \<le> ORIGIN + uint (lcdcols s) - 1"
  shows "\<exists>r. lcd44780setpos dev s (uint row - ORIGIN) (uint col - ORIGIN) = Inr r"
    "\<exists>r. lcd44780str dev s writebuf row col = Inr r"
    "\<exists>r. lcd44780chr dev s writebuf row col = Inr r"
proof -
  have idx: "0 \<le> uint row - ORIGIN" "uint row - ORIGIN \<le> 3"
    using assms by (simp_all add: ORIGIN_def)
  show "\<exists>r. lcd44780setpos dev s (uint row - ORIGIN) (uint col - ORIGIN) = Inr r"
    using setpos_in_table [OF idx] by blast
  then show "\<exists>r. lcd44780str dev s writebuf row col = Inr r"
    using assms(1,2,4,5) by (auto simp add: str_accepts)
  show "\<exists>r. lcd44780chr dev s writebuf row col = Inr r"
    using assms(1,2,4,5) setpos_in_table [OF idx] by (auto simp add: chr_accepts)
qed

subsection \<open>The statics under the operations\<close>

text \<open>The backlight static starts as 0x08 and only \<open>lcd44780backlight\<close>
  stores into it, 0x00 or 0x08; the two sizes are stored by
  \<open>lcd44780init\<close> only.\<close>

lemma backlight_ok_backlight: "backlight_ok (snd (lcd44780backlight dev s setting))"
  by (simp add: backlight_ok_def backlight_static)

lemma backlight_ok_transfers: "backlight_ok (snd r) \<Longrightarrow> backlight_ok (snd (transfers dev ts r))"
  by (simp add: transfers_send backlight_ok_def)

lemma backlight_ok_commands:
  "backlight_ok s \<Longrightarrow> backlight_ok (snd (lcd44780clear dev s))"
  "backlight_ok s \<Longrightarrow> backlight_ok (snd (lcd44780home dev s))"
  "backlight_ok s \<Longrightarrow> backlight_ok (snd (lcd44780setdisplay dev s mode blink cursor))"
  by (simp_all add: lcd44780clear_def lcd44780home_def lcd44780setdisplay_def Let_def
      writecmd4_send [where i = 0] backlight_ok_def)

lemma str_chr_keep_statics:
  "lcd44780str dev s writebuf row col = Inr r \<Longrightarrow>
     bl44780 (snd r) = bl44780 s \<and> lcdrows (snd r) = lcdrows s \<and> lcdcols (snd r) = lcdcols s"
  "lcd44780chr dev s writebuf row col = Inr r \<Longrightarrow>
     bl44780 (snd r) = bl44780 s \<and> lcdrows (snd r) = lcdrows s \<and> lcdcols (snd r) = lcdcols s"
proof -
  have acc: "ORIGIN \<le> uint row \<and> uint row \<le> ORIGIN + uint (lcdrows s) - 1 \<and> ORIGIN \<le> uint col \<and>
     uint col \<le> ORIGIN + uint (lcdcols s) - 1 \<Longrightarrow>
     (lcd44780str dev s writebuf row col = Inr r \<longrightarrow>
        bl44780 (snd r) = bl44780 s \<and> lcdrows (snd r) = lcdrows s \<and> lcdcols (snd r) = lcdcols s) \<and>
     (lcd44780chr dev s writebuf row col = Inr r \<longrightarrow>
        bl44780 (snd r) = bl44780 s \<and> lcdrows (snd r) = lcdrows s \<and> lcdcols (snd r) = lcdcols s)"
    using setpos_cases [of dev s "uint row - ORIGIN" "uint col - ORIGIN"]
    by (auto simp add: str_accepts chr_accepts)
  have all: "(lcd44780str dev s writebuf row col = Inr r \<longrightarrow>
        bl44780 (snd r) = bl44780 s \<and> lcdrows (snd r) = lcdrows s \<and> lcdcols (snd r) = lcdcols s) \<and>
     (lcd44780chr dev s writebuf row col = Inr r \<longrightarrow>
        bl44780 (snd r) = bl44780 s \<and> lcdrows (snd r) = lcdrows s \<and> lcdcols (snd r) = lcdcols s)"
    using str_outcomes [of row dev s writebuf col] acc by (elim disjE) auto
  show "lcd44780str dev s writebuf row col = Inr r \<Longrightarrow>
     bl44780 (snd r) = bl44780 s \<and> lcdrows (snd r) = lcdrows s \<and> lcdcols (snd r) = lcdcols s"
    using all by blast
  show "lcd44780chr dev s writebuf row col = Inr r \<Longrightarrow>
     bl44780 (snd r) = bl44780 s \<and> lcdrows (snd r) = lcdrows s \<and> lcdcols (snd r) = lcdcols s"
    using all by blast
qed

lemma cmd4_bytes_two_nibbles:
  assumes "backlight_ok s"
  shows "two_nibble_transfers v (cmd4_bytes (bl44780 s) v)"
proof -
  have bl: "bl44780 s = 0x00 \<or> bl44780 s = BACKLIGHT"
    using assms by (simp add: backlight_ok_def)
  show ?thesis
    unfolding two_nibble_transfers_def cmd4_bytes_def strobe_def
    by (simp only: append.simps list.case strobe_enable high_nibble_on_bus [OF bl]
        low_nibble_on_bus simp_thms)
qed

lemma data_bytes_two_nibbles:
  assumes "backlight_ok s"
  shows "two_nibble_transfers v (data_bytes (bl44780 s) v)"
proof -
  have bl: "bl44780 s = 0x00 \<or> bl44780 s = BACKLIGHT"
    using assms by (simp add: backlight_ok_def)
  show ?thesis
    unfolding two_nibble_transfers_def data_bytes_def strobe_def
    by (simp only: append.simps list.case strobe_enable high_nibble_on_bus [OF bl]
        low_nibble_on_bus simp_thms)
qed

lemma cmd4_bytes_register_select:
  assumes "backlight_ok s" "b \<in> set (cmd4_bytes (bl44780 s) v)"
  shows "b AND REGISTERSET = 0"
proof -
  have bl: "bl44780 s = 0x00 \<or> bl44780 s = BACKLIGHT"
    using assms(1) by (simp add: backlight_ok_def)
  have "b AND REGISTERSET = 0" if "b \<in> set (cmd4_bytes bl v)" "bl = 0x00 \<or> bl = BACKLIGHT" for bl
    using that by (auto simp add: cmd4_bytes_def strobe_def; intro byte_eqI;
        simp add: lcd_consts bit_simps)
  with assms(2) bl show ?thesis by blast
qed

lemma cmd4_bytes_decode:
  assumes "backlight_ok s"
  shows "(cmd4_bytes (bl44780 s) v ! 0 AND 0xF0) OR drop_bit 4 (cmd4_bytes (bl44780 s) v ! 2) = v"
proof -
  have bl: "bl44780 s = 0x00 \<or> bl44780 s = BACKLIGHT"
    using assms by (simp add: backlight_ok_def)
  have "((((v AND 0xF0) OR bl) OR ENABLE) AND 0xF0) OR
        drop_bit 4 (((push_bit 4 v AND 0xF0) OR bl) OR ENABLE) = v"
    if "bl = 0x00 \<or> bl = BACKLIGHT" for bl :: byte
    using that by (intro byte_eqI; auto simp add: lcd_consts bit_simps byte_bit_high)
  with bl show ?thesis
    by (simp add: cmd4_bytes_def strobe_def)
qed

lemma cmd4_bytes_explicit:
  "cmd4_bytes bl v =
     [(v AND 0xF0) OR bl OR ENABLE,
      ((v AND 0xF0) OR bl OR ENABLE) AND NOT ENABLE,
      (push_bit 4 v AND 0xF0) OR bl OR ENABLE,
      ((push_bit 4 v AND 0xF0) OR bl OR ENABLE) AND NOT ENABLE]"
  by (simp add: cmd4_bytes_def strobe_def or.assoc)

section \<open>Properties of the driver\<close>

subsection \<open>Nibble framing\<close>

text \<open>C1. Once the display is initialised (the backlight static is 0x00 or
  0x08, which is all \<open>lcd44780backlight\<close> ever stores), both
  \<open>lcd44780writecmd4\<close> and \<open>lcd44780writedata\<close> append exactly
  four bytes to the bus for every 8-bit value: the high nibble twice, then the
  low nibble twice, each time first with the enable bit set and then with it
  cleared, the two bytes of a pair being equal in every other bit.\<close>

theorem nibble_framing:
  assumes "backlight_ok s"
  shows "bus (snd (lcd44780writecmd4 dev s v)) = bus s @ written s (snd (lcd44780writecmd4 dev s v)) \<and>
         two_nibble_transfers v (written s (snd (lcd44780writecmd4 dev s v))) \<and>
         bus (snd (lcd44780writedata dev s v)) = bus s @ written s (snd (lcd44780writedata dev s v)) \<and>
         two_nibble_transfers v (written s (snd (lcd44780writedata dev s v)))"
  using assms
  by (simp add: bus_writecmd4 bus_writedata cmd4_bytes_two_nibbles data_bytes_two_nibbles)

theorem nibble_framing_witness:
  "backlight_ok (snd (lcd44780init always_ok startup 4 20)) \<and>
   written (snd (lcd44780init always_ok startup 4 20))
     (snd (lcd44780writecmd4 always_ok (snd (lcd44780init always_ok startup 4 20)) 0x41))
     = [0x4C, 0x48, 0x1C, 0x18] \<and>
   two_nibble_transfers 0x41 [0x4C, 0x48, 0x1C, 0x18] \<and>
   written (snd (lcd44780init always_ok startup 4 20))
     (snd (lcd44780writedata always_ok (snd (lcd44780init always_ok startup 4 20)) 0x41))
     = [0x4D, 0x49, 0x1D, 0x19] \<and>
   two_nibble_transfers 0x41 [0x4D, 0x49, 0x1D, 0x19]"
proof -
  let ?s = "snd (lcd44780init always_ok startup 4 20)"
  have ok: "backlight_ok ?s"
    by (simp add: init_send backlight_ok_def startup_def)
  have c: "written ?s (snd (lcd44780writecmd4 always_ok ?s 0x41)) = [0x4C, 0x48, 0x1C, 0x18]"
    by (simp add: init_send startup_def cmd4_bytes_def strobe_def lcd_consts)
  have d: "written ?s (snd (lcd44780writedata always_ok ?s 0x41)) = [0x4D, 0x49, 0x1D, 0x19]"
    by (simp add: init_send startup_def data_bytes_def strobe_def lcd_consts)
  from nibble_framing [OF ok, of always_ok "0x41"] ok c d show ?thesis
    by simp
qed

text \<open>C5. For every value and every state of the backlight static, the
  bytes written by \<open>lcd44780writedata\<close> are the bytes written by
  \<open>lcd44780writecmd4\<close> on the same value, in the same order, each with
  the register-select bit 0x01 OR'ed in; both calls write four bytes. With the
  backlight static at 0x00 or 0x08 the command bytes have the register-select
  bit clear, so the bit is the only difference.\<close>

theorem data_is_command_with_register_select:
  "written s (snd (lcd44780writedata dev s v)) =
     map (\<lambda>b. b OR REGISTERSET) (written s (snd (lcd44780writecmd4 dev s v))) \<and>
   length (written s (snd (lcd44780writecmd4 dev s v))) = 4 \<and>
   length (written s (snd (lcd44780writedata dev s v))) = 4 \<and>
   bus (snd (lcd44780writecmd4 dev s v)) = bus s @ written s (snd (lcd44780writecmd4 dev s v)) \<and>
   bus (snd (lcd44780writedata dev s v)) = bus s @ written s (snd (lcd44780writedata dev s v)) \<and>
   (backlight_ok s \<longrightarrow>
      (\<forall>b \<in> set (written s (snd (lcd44780writecmd4 dev s v))). b AND REGISTERSET = 0))"
proof -
  have m: "data_bytes bl v = map (\<lambda>b. b OR REGISTERSET) (cmd4_bytes bl v)" for bl
    by (simp add: data_bytes_def cmd4_bytes_def strobe_def; intro conjI; rule byte_eqI;
        auto simp add: lcd_consts bit_simps)
  have r: "b AND REGISTERSET = 0" if "bl = 0x00 \<or> bl = BACKLIGHT" "b \<in> set (cmd4_bytes bl v)" for b bl
    using that by (auto simp add: cmd4_bytes_def strobe_def; intro byte_eqI;
        simp add: lcd_consts bit_simps)
  show ?thesis
    using m r [of "bl44780 s"]
    by (simp add: bus_writecmd4 bus_writedata backlight_ok_def)
qed

theorem data_is_command_with_register_select_witness:
  "backlight_ok startup \<and>
   written startup (snd (lcd44780writecmd4 always_ok startup 0x41)) = [0x4C, 0x48, 0x1C, 0x18] \<and>
   written startup (snd (lcd44780writedata always_ok startup 0x41)) = [0x4D, 0x49, 0x1D, 0x19] \<and>
   (0x4C::byte) \<in> set (written startup (snd (lcd44780writecmd4 always_ok startup 0x41))) \<and>
   (0x4C::byte) AND REGISTERSET = 0"
proof -
  have c: "written startup (snd (lcd44780writecmd4 always_ok startup 0x41)) = [0x4C, 0x48, 0x1C, 0x18]"
    by (simp add: startup_def cmd4_bytes_def strobe_def lcd_consts)
  have d: "written startup (snd (lcd44780writedata always_ok startup 0x41)) = [0x4D, 0x49, 0x1D, 0x19]"
    by (simp add: startup_def data_bytes_def strobe_def lcd_consts)
  from data_is_command_with_register_select [of startup always_ok "0x41"] backlight_ok_startup c d
  show ?thesis by (simp del: written_writecmd4 written_writedata)
qed

subsection \<open>Validation\<close>

text \<open>C2. \<open>lcd44780str\<close> and \<open>lcd44780chr\<close> validate before any
  bus write, the row first and then the column: a row below \<open>ORIGIN\<close> gives \<open>ROWTOOLOW\<close>, a row
  above \<open>ORIGIN + lcdrows - 1\<close> gives \<open>ROWTOOHIGH\<close>. When the row is in
  range, a column below \<open>ORIGIN\<close> gives \<open>COLTOOLOW\<close> and a column above
  \<open>ORIGIN + lcdcols - 1\<close> gives \<open>COLTOOHIGH\<close>. In each case the statics
  and the bus come back as they were, so nothing was written.\<close>

theorem validation_rejects_before_bus:
  "(uint row < ORIGIN \<longrightarrow>
      lcd44780str dev s writebuf row col = Inr (ROWTOOLOW, s) \<and>
      lcd44780chr dev s writebuf row col = Inr (ROWTOOLOW, s)) \<and>
   (uint row > ORIGIN + uint (lcdrows s) - 1 \<longrightarrow>
      lcd44780str dev s writebuf row col = Inr (ROWTOOHIGH, s) \<and>
      lcd44780chr dev s writebuf row col = Inr (ROWTOOHIGH, s)) \<and>
   (ORIGIN \<le> uint row \<and> uint row \<le> ORIGIN + uint (lcdrows s) - 1 \<and> uint col < ORIGIN \<longrightarrow>
      lcd44780str dev s writebuf row col = Inr (COLTOOLOW, s) \<and>
      lcd44780chr dev s writebuf row col = Inr (COLTOOLOW, s)) \<and>
   (ORIGIN \<le> uint row \<and> uint row \<le> ORIGIN + uint (lcdrows s) - 1 \<and>
    uint col > ORIGIN + uint (lcdcols s) - 1 \<longrightarrow>
      lcd44780str dev s writebuf row col = Inr (COLTOOHIGH, s) \<and>
      lcd44780chr dev s writebuf row col = Inr (COLTOOHIGH, s)) \<and>
   written s s = [] \<and> ORIGIN = 1 \<and>
   ROWTOOLOW = - 1000 \<and> ROWTOOHIGH = - 1001 \<and> COLTOOLOW = - 1003 \<and> COLTOOHIGH = - 1004"
proof -
  have r: "ORIGIN \<le> uint row" if "uint row > ORIGIN + uint (lcdrows s) - 1"
    using that uint_ge_0 [of "lcdrows s"] unfolding ORIGIN_def by linarith
  have c: "ORIGIN \<le> uint col" if "uint col > ORIGIN + uint (lcdcols s) - 1"
    using that uint_ge_0 [of "lcdcols s"] unfolding ORIGIN_def by linarith
  have 1: "uint row < ORIGIN \<longrightarrow>
      lcd44780str dev s writebuf row col = Inr (ROWTOOLOW, s) \<and>
      lcd44780chr dev s writebuf row col = Inr (ROWTOOLOW, s)"
    by (simp add: str_rejects chr_rejects)
  have 2: "uint row > ORIGIN + uint (lcdrows s) - 1 \<longrightarrow>
      lcd44780str dev s writebuf row col = Inr (ROWTOOHIGH, s) \<and>
      lcd44780chr dev s writebuf row col = Inr (ROWTOOHIGH, s)"
    using r by (simp add: str_rejects chr_rejects)
  have 3: "ORIGIN \<le> uint row \<and> uint row \<le> ORIGIN + uint (lcdrows s) - 1 \<and> uint col < ORIGIN \<longrightarrow>
      lcd44780str dev s writebuf row col = Inr (COLTOOLOW, s) \<and>
      lcd44780chr dev s writebuf row col = Inr (COLTOOLOW, s)"
    by (simp add: str_rejects chr_rejects)
  have 4: "ORIGIN \<le> uint row \<and> uint row \<le> ORIGIN + uint (lcdrows s) - 1 \<and>
    uint col > ORIGIN + uint (lcdcols s) - 1 \<longrightarrow>
      lcd44780str dev s writebuf row col = Inr (COLTOOHIGH, s) \<and>
      lcd44780chr dev s writebuf row col = Inr (COLTOOHIGH, s)"
    using c by (simp add: str_rejects chr_rejects)
  have 5: "written s s = []" by (simp add: written_def)
  from 1 2 3 4 5 show ?thesis by (simp add: lcd_consts)
qed

theorem validation_rejects_before_bus_witness:
  "uint (5::byte) > ORIGIN + uint (lcdrows (snd (lcd44780init always_ok startup 4 20))) - 1 \<and>
   lcd44780str always_ok (snd (lcd44780init always_ok startup 4 20)) [0x41] 5 1 =
     Inr (ROWTOOHIGH, snd (lcd44780init always_ok startup 4 20)) \<and>
   ORIGIN \<le> uint (1::byte) \<and>
   uint (1::byte) \<le> ORIGIN + uint (lcdrows (snd (lcd44780init always_ok startup 4 20))) - 1 \<and>
   uint (21::byte) > ORIGIN + uint (lcdcols (snd (lcd44780init always_ok startup 4 20))) - 1 \<and>
   lcd44780chr always_ok (snd (lcd44780init always_ok startup 4 20)) [0x41] 1 21 =
     Inr (COLTOOHIGH, snd (lcd44780init always_ok startup 4 20)) \<and>
   uint (0::byte) < ORIGIN \<and>
   lcd44780str always_ok (snd (lcd44780init always_ok startup 4 20)) [0x41] 0 1 =
     Inr (ROWTOOLOW, snd (lcd44780init always_ok startup 4 20)) \<and>
   lcd44780str always_ok (snd (lcd44780init always_ok startup 4 20)) [0x41] 1 0 =
     Inr (COLTOOLOW, snd (lcd44780init always_ok startup 4 20))"
  using validation_rejects_before_bus [where row = 5 and col = 1 and writebuf = "[0x41]"
      and dev = always_ok and s = "snd (lcd44780init always_ok startup 4 20)"]
    validation_rejects_before_bus [where row = 1 and col = 21 and writebuf = "[0x41]"
      and dev = always_ok and s = "snd (lcd44780init always_ok startup 4 20)"]
    validation_rejects_before_bus [where row = 0 and col = 1 and writebuf = "[0x41]"
      and dev = always_ok and s = "snd (lcd44780init always_ok startup 4 20)"]
    validation_rejects_before_bus [where row = 1 and col = 0 and writebuf = "[0x41]"
      and dev = always_ok and s = "snd (lcd44780init always_ok startup 4 20)"]
  by (simp add: ORIGIN_def)

text \<open>C10. The negative value -256 arrives as row 0, which is out of range
  on a display of 4 rows, and is reported as \<open>ROWTOOLOW\<close>, not as
  \<open>ROWTOOHIGH\<close>.\<close>

theorem negative_multiple_of_256_counterexample:
  "(- 256 :: int) < 0 \<and>
   \<not> (ORIGIN \<le> uint (word_of_int (- 256) :: byte) \<and>
      uint (word_of_int (- 256) :: byte) \<le>
        ORIGIN + uint (lcdrows (snd (lcd44780init always_ok startup 4 20))) - 1) \<and>
   lcd44780str always_ok (snd (lcd44780init always_ok startup 4 20)) [0x41] (word_of_int (- 256)) 1 =
     Inr (ROWTOOLOW, snd (lcd44780init always_ok startup 4 20)) \<and>
   lcd44780str always_ok (snd (lcd44780init always_ok startup 4 20)) [0x41] (word_of_int (- 256)) 1 \<noteq>
     Inr (ROWTOOHIGH, snd (lcd44780init always_ok startup 4 20))"
proof -
  have z: "(word_of_int (- 256) :: byte) = 0"
    by (simp add: word_of_int_eq_0_iff)
  show ?thesis
    unfolding z by (simp add: lcd44780str_def lcd_consts)
qed

text \<open>C10, as the source has it. \<open>row\<close> and \<open>col\<close> are
  \<open>uint8_t\<close> and \<open>ORIGIN\<close> is 1. \<open>ROWTOOLOW\<close> is returned (with
  the bus untouched) exactly when \<open>row = 0\<close>; \<open>COLTOOLOW\<close> exactly
  when the row is in range and \<open>col = 0\<close>. A negative argument \<open>n\<close>
  arrives as \<open>n mod 256\<close>: when that is 0 (\<open>n\<close> a multiple of 256)
  the too-low error is returned, and when it is above the number of rows or
  columns the too-high error; the column errors again need a row in range.\<close>

theorem low_errors_only_at_zero:
  "(lcd44780str dev s writebuf row col = Inr (ROWTOOLOW, s) \<longleftrightarrow> row = 0) \<and>
   (lcd44780chr dev s writebuf row col = Inr (ROWTOOLOW, s) \<longleftrightarrow> row = 0) \<and>
   (lcd44780str dev s writebuf row col = Inr (COLTOOLOW, s) \<longleftrightarrow>
      ORIGIN \<le> uint row \<and> uint row \<le> ORIGIN + uint (lcdrows s) - 1 \<and> col = 0) \<and>
   (lcd44780chr dev s writebuf row col = Inr (COLTOOLOW, s) \<longleftrightarrow>
      ORIGIN \<le> uint row \<and> uint row \<le> ORIGIN + uint (lcdrows s) - 1 \<and> col = 0) \<and>
   uint (word_of_int n :: byte) = n mod 256 \<and>
   (n < 0 \<and> n mod 256 = 0 \<longrightarrow>
      lcd44780str dev s writebuf (word_of_int n) col = Inr (ROWTOOLOW, s) \<and>
      lcd44780chr dev s writebuf (word_of_int n) col = Inr (ROWTOOLOW, s)) \<and>
   (n < 0 \<and> n mod 256 > ORIGIN + uint (lcdrows s) - 1 \<longrightarrow>
      lcd44780str dev s writebuf (word_of_int n) col = Inr (ROWTOOHIGH, s) \<and>
      lcd44780chr dev s writebuf (word_of_int n) col = Inr (ROWTOOHIGH, s)) \<and>
   (ORIGIN \<le> uint row \<and> uint row \<le> ORIGIN + uint (lcdrows s) - 1 \<and> n < 0 \<and> n mod 256 = 0 \<longrightarrow>
      lcd44780str dev s writebuf row (word_of_int n) = Inr (COLTOOLOW, s) \<and>
      lcd44780chr dev s writebuf row (word_of_int n) = Inr (COLTOOLOW, s)) \<and>
   (ORIGIN \<le> uint row \<and> uint row \<le> ORIGIN + uint (lcdrows s) - 1 \<and> n < 0 \<and>
    n mod 256 > ORIGIN + uint (lcdcols s) - 1 \<longrightarrow>
      lcd44780str dev s writebuf row (word_of_int n) = Inr (COLTOOHIGH, s) \<and>
      lcd44780chr dev s writebuf row (word_of_int n) = Inr (COLTOOHIGH, s))"
proof -
  have z: "uint x < ORIGIN \<longleftrightarrow> x = 0" for x :: byte
  proof -
    have "uint x < 1 \<longleftrightarrow> uint x = 0"
      using uint_ge_0 [of x] by linarith
    then show ?thesis by (simp add: ORIGIN_def uint_0_iff)
  qed
  have codes: "ROWTOOLOW \<noteq> ROWTOOHIGH" "ROWTOOLOW \<noteq> COLTOOLOW" "ROWTOOLOW \<noteq> COLTOOHIGH"
    "COLTOOLOW \<noteq> ROWTOOHIGH" "COLTOOLOW \<noteq> COLTOOHIGH"
    by (simp_all add: lcd_consts)
  have acc: "lcd44780str dev s writebuf row col \<noteq> Inr (e, s) \<and>
      lcd44780chr dev s writebuf row col \<noteq> Inr (e, s)"
    if "ORIGIN \<le> uint row \<and> uint row \<le> ORIGIN + uint (lcdrows s) - 1 \<and> ORIGIN \<le> uint col \<and>
       uint col \<le> ORIGIN + uint (lcdcols s) - 1" for e
    using that str_accepted_touches_bus [of row s col dev writebuf e]
      chr_accepted_touches_bus [of row s col dev writebuf e] by simp
  have 1: "(lcd44780str dev s writebuf row col = Inr (ROWTOOLOW, s) \<longleftrightarrow> row = 0) \<and>
     (lcd44780chr dev s writebuf row col = Inr (ROWTOOLOW, s) \<longleftrightarrow> row = 0)"
    using str_outcomes [of row dev s writebuf col] acc [of ROWTOOLOW] codes z [of row]
    by (elim disjE) auto
  have 2: "(lcd44780str dev s writebuf row col = Inr (COLTOOLOW, s) \<longleftrightarrow>
      ORIGIN \<le> uint row \<and> uint row \<le> ORIGIN + uint (lcdrows s) - 1 \<and> col = 0) \<and>
     (lcd44780chr dev s writebuf row col = Inr (COLTOOLOW, s) \<longleftrightarrow>
      ORIGIN \<le> uint row \<and> uint row \<le> ORIGIN + uint (lcdrows s) - 1 \<and> col = 0)"
    using str_outcomes [of row dev s writebuf col] acc [of COLTOOLOW] codes z [of row] z [of col]
    by (elim disjE) auto
  have 3: "uint (word_of_int n :: byte) = n mod 256"
    by (simp add: uint_word_of_int)
  have 4: "lcd44780str dev s writebuf (word_of_int n) col = Inr (ROWTOOLOW, s) \<and>
      lcd44780chr dev s writebuf (word_of_int n) col = Inr (ROWTOOLOW, s)" if "n mod 256 = 0"
    using that 3 by (simp add: str_rejects chr_rejects ORIGIN_def)
  have 5: "lcd44780str dev s writebuf (word_of_int n) col = Inr (ROWTOOHIGH, s) \<and>
      lcd44780chr dev s writebuf (word_of_int n) col = Inr (ROWTOOHIGH, s)"
    if "n mod 256 > ORIGIN + uint (lcdrows s) - 1"
  proof -
    have "ORIGIN \<le> uint (word_of_int n :: byte)"
      using that uint_ge_0 [of "lcdrows s"] unfolding 3 ORIGIN_def by linarith
    with that show ?thesis by (simp add: str_rejects chr_rejects 3)
  qed
  have 6: "lcd44780str dev s writebuf row (word_of_int n) = Inr (COLTOOLOW, s) \<and>
      lcd44780chr dev s writebuf row (word_of_int n) = Inr (COLTOOLOW, s)"
    if "ORIGIN \<le> uint row" "uint row \<le> ORIGIN + uint (lcdrows s) - 1" "n mod 256 = 0"
    using that 3 by (simp add: str_rejects chr_rejects ORIGIN_def)
  have 7: "lcd44780str dev s writebuf row (word_of_int n) = Inr (COLTOOHIGH, s) \<and>
      lcd44780chr dev s writebuf row (word_of_int n) = Inr (COLTOOHIGH, s)"
    if "ORIGIN \<le> uint row" "uint row \<le> ORIGIN + uint (lcdrows s) - 1"
      "n mod 256 > ORIGIN + uint (lcdcols s) - 1"
  proof -
    have "ORIGIN \<le> uint (word_of_int n :: byte)"
      using that(3) uint_ge_0 [of "lcdcols s"] unfolding 3 ORIGIN_def by linarith
    with that show ?thesis by (simp add: str_rejects chr_rejects 3)
  qed
  show ?thesis
    by (intro conjI impI; (elim conjE)?; simp add: 1 2 3 4 5 6 7)
qed

theorem low_errors_only_at_zero_witness:
  "(- 1 :: int) < 0 \<and>
   (- 1 :: int) mod 256 > ORIGIN + uint (lcdrows (snd (lcd44780init always_ok startup 4 20))) - 1 \<and>
   lcd44780str always_ok (snd (lcd44780init always_ok startup 4 20)) [0x41] (word_of_int (- 1)) 1 =
     Inr (ROWTOOHIGH, snd (lcd44780init always_ok startup 4 20)) \<and>
   lcd44780str always_ok (snd (lcd44780init always_ok startup 4 20)) [0x41] 0 1 =
     Inr (ROWTOOLOW, snd (lcd44780init always_ok startup 4 20)) \<and>
   ORIGIN \<le> uint (2::byte) \<and>
   uint (2::byte) \<le> ORIGIN + uint (lcdrows (snd (lcd44780init always_ok startup 4 20))) - 1 \<and>
   lcd44780chr always_ok (snd (lcd44780init always_ok startup 4 20)) [0x41] 2 0 =
     Inr (COLTOOLOW, snd (lcd44780init always_ok startup 4 20)) \<and>
   lcd44780chr always_ok (snd (lcd44780init always_ok startup 4 20)) [0x41] 2 (word_of_int (- 1)) =
     Inr (COLTOOHIGH, snd (lcd44780init always_ok startup 4 20)) \<and>
   (- 512 :: int) < 0 \<and> (- 512 :: int) mod 256 = 0 \<and>
   lcd44780str always_ok (snd (lcd44780init always_ok startup 4 20)) [0x41] (word_of_int (- 512)) 1 =
     Inr (ROWTOOLOW, snd (lcd44780init always_ok startup 4 20)) \<and>
   lcd44780str always_ok (snd (lcd44780init always_ok startup 4 20)) [0x41] 2 (word_of_int (- 512)) =
     Inr (COLTOOLOW, snd (lcd44780init always_ok startup 4 20))"
  using low_errors_only_at_zero [where dev = always_ok and s = "snd (lcd44780init always_ok startup 4 20)"
      and writebuf = "[0x41]" and row = 0 and col = 1 and n = "- 1"]
    low_errors_only_at_zero [where dev = always_ok and s = "snd (lcd44780init always_ok startup 4 20)"
      and writebuf = "[0x41]" and row = 2 and col = 0 and n = "- 1"]
    low_errors_only_at_zero [where dev = always_ok and s = "snd (lcd44780init always_ok startup 4 20)"
      and writebuf = "[0x41]" and row = 2 and col = 1 and n = "- 512"]
  by (simp add: ORIGIN_def)

subsection \<open>Writing a string\<close>

text \<open>C3. After initialisation with 5 rows and 20 columns the position row
  5, column 1 passes validation, and \<open>lcd44780str\<close> reads
  \<open>rowstart[4]\<close>, outside the table.\<close>

theorem row_beyond_table_counterexample:
  "ORIGIN \<le> uint (5::byte) \<and>
   uint (5::byte) \<le> ORIGIN + uint (lcdrows (snd (lcd44780init always_ok startup 5 20))) - 1 \<and>
   ORIGIN \<le> uint (1::byte) \<and>
   uint (1::byte) \<le> ORIGIN + uint (lcdcols (snd (lcd44780init always_ok startup 5 20))) - 1 \<and>
   lcd44780str always_ok (snd (lcd44780init always_ok startup 5 20)) [0x41] 5 1 =
     Inl (RowstartOutOfBounds 4)"
  by (simp add: lcd44780str_def lcd44780setpos_def ORIGIN_def)

text \<open>C3, as the source has it. At a valid position whose row is one of
  the four rows of \<open>rowstart\<close>, \<open>lcd44780str\<close> first writes what
  \<open>lcd44780setpos\<close> writes for the position and then, for each of the
  first \<open>min (strlen writebuf) (lcdcols - col + ORIGIN)\<close> characters in
  order, the four bytes that \<open>lcd44780writedata\<close> writes for it, and
  nothing else. The result is the status of the last write, and the statics
  are unchanged.\<close>

theorem str_writes_truncated_text:
  assumes "ORIGIN \<le> uint row" "uint row \<le> ORIGIN + uint (lcdrows s) - 1" "uint row \<le> 4"
    "ORIGIN \<le> uint col" "uint col \<le> ORIGIN + uint (lcdcols s) - 1"
  shows "\<exists>r r'.
     lcd44780setpos dev s (uint row - ORIGIN) (uint col - ORIGIN) = Inr r \<and>
     lcd44780str dev s writebuf row col = Inr r' \<and>
     bus (snd r') = bus s @ written s (snd r') \<and>
     written s (snd r') =
       written s (snd r) @
       concat (map (\<lambda>c. written s (snd (lcd44780writedata dev s c)))
         (take (nat (min (int (length writebuf)) (uint (lcdcols s) - uint col + ORIGIN))) writebuf)) \<and>
     length (written s (snd r')) =
       4 + 4 * nat (min (int (length writebuf)) (uint (lcdcols s) - uint col + ORIGIN)) \<and>
     fst r' = dev (butlast (bus (snd r'))) (last (bus (snd r'))) \<and>
     bl44780 (snd r') = bl44780 s \<and> lcdrows (snd r') = lcdrows s \<and> lcdcols (snd r') = lcdcols s \<and>
     (backlight_ok s \<longrightarrow>
        (\<forall>c \<in> set writebuf. two_nibble_transfers c (written s (snd (lcd44780writedata dev s c)))))"
proof -
  let ?n = "nat (min (int (length writebuf)) (uint (lcdcols s) - uint col + ORIGIN))"
  let ?A = "cmd4_bytes (bl44780 s)
      (DDRAMSETADDR OR word_of_int (uint (rowstart ! nat (uint row - ORIGIN)) + (uint col - ORIGIN)))"
  let ?D = "concat (map (data_bytes (bl44780 s)) (take ?n writebuf))"
  let ?r = "send dev ?A (0, s)"
  let ?r' = "send dev (?A @ ?D) (0, s)"
  have idx: "0 \<le> uint row - ORIGIN" "uint row - ORIGIN \<le> 3"
    using assms by (simp_all add: ORIGIN_def)
  have p: "lcd44780setpos dev s (uint row - ORIGIN) (uint col - ORIGIN) = Inr ?r"
    by (rule setpos_send [OF idx])
  have q: "lcd44780str dev s writebuf row col = Inr ?r'"
    using assms(1,2,4,5) by (simp add: str_accepts p send_send)
  have ne: "?A @ ?D \<noteq> []"
    by (simp add: cmd4_bytes_def strobe_def)
  have n: "length (take ?n writebuf) = ?n"
    by auto
  have 1: "bus (snd ?r') = bus s @ written s (snd ?r')"
    by simp
  have 2: "written s (snd ?r') = written s (snd ?r) @
       concat (map (\<lambda>c. written s (snd (lcd44780writedata dev s c))) (take ?n writebuf))"
    by simp
  have 3: "length (written s (snd ?r')) = 4 + 4 * ?n"
    using n by simp
  have 4: "fst ?r' = dev (butlast (bus (snd ?r'))) (last (bus (snd ?r')))"
    by (rule fst_send_last [OF ne])
  have 5: "bl44780 (snd ?r') = bl44780 s \<and> lcdrows (snd ?r') = lcdrows s \<and> lcdcols (snd ?r') = lcdcols s"
    by simp
  have 6: "backlight_ok s \<longrightarrow>
      (\<forall>c \<in> set writebuf. two_nibble_transfers c (written s (snd (lcd44780writedata dev s c))))"
    by (simp add: data_bytes_two_nibbles)
  from p q 1 2 3 4 5 6 show ?thesis by blast
qed

theorem str_writes_truncated_text_witness:
  "ORIGIN \<le> uint (1::byte) \<and>
   uint (1::byte) \<le> ORIGIN + uint (lcdrows (snd (lcd44780init always_ok startup 4 20))) - 1 \<and>
   uint (1::byte) \<le> 4 \<and> ORIGIN \<le> uint (19::byte) \<and>
   uint (19::byte) \<le> ORIGIN + uint (lcdcols (snd (lcd44780init always_ok startup 4 20))) - 1 \<and>
   written (snd (lcd44780init always_ok startup 4 20))
     (snd (projr (lcd44780str always_ok (snd (lcd44780init always_ok startup 4 20))
        [0x42, 0x79, 0x65, 0x21] 1 19))) =
     [0x9C, 0x98, 0x2C, 0x28, 0x4D, 0x49, 0x2D, 0x29, 0x7D, 0x79, 0x9D, 0x99] \<and>
   backlight_ok (snd (lcd44780init always_ok startup 4 20)) \<and>
   two_nibble_transfers 0x42 [0x4D, 0x49, 0x2D, 0x29]"
proof -
  let ?s = "snd (lcd44780init always_ok startup 4 20)"
  have ok: "backlight_ok ?s"
    by (simp add: backlight_ok_init backlight_ok_startup)
  have h: "ORIGIN \<le> uint (1::byte)" "uint (1::byte) \<le> ORIGIN + uint (lcdrows ?s) - 1"
    "uint (1::byte) \<le> 4" "ORIGIN \<le> uint (19::byte)" "uint (19::byte) \<le> ORIGIN + uint (lcdcols ?s) - 1"
    by (simp_all add: ORIGIN_def)
  have p: "lcd44780setpos always_ok ?s (uint (1::byte) - ORIGIN) (uint (19::byte) - ORIGIN) =
      Inr (send always_ok [0x9C, 0x98, 0x2C, 0x28] (0, ?s))"
    by (simp add: setpos_send [where i = 0] rowstart_def cmd4_bytes_def strobe_def
        startup_def lcd_consts)
  from str_writes_truncated_text [OF h, of always_ok "[0x42, 0x79, 0x65, 0x21]"]
  obtain r r' where r: "lcd44780setpos always_ok ?s (uint (1::byte) - ORIGIN) (uint (19::byte) - ORIGIN) = Inr r"
    and r': "lcd44780str always_ok ?s [0x42, 0x79, 0x65, 0x21] 1 19 = Inr r'"
    and w: "written ?s (snd r') = written ?s (snd r) @
       concat (map (\<lambda>c. written ?s (snd (lcd44780writedata always_ok ?s c)))
         (take (nat (min (int (length [0x42, 0x79, 0x65, 0x21 :: byte]))
            (uint (lcdcols ?s) - uint (19::byte) + ORIGIN))) [0x42, 0x79, 0x65, 0x21]))"
    and f: "backlight_ok ?s \<longrightarrow>
        (\<forall>c \<in> set [0x42, 0x79, 0x65, 0x21].
           two_nibble_transfers c (written ?s (snd (lcd44780writedata always_ok ?s c))))"
    by blast
  have "written ?s (snd (lcd44780writedata always_ok ?s 0x42)) = [0x4D, 0x49, 0x2D, 0x29]"
    by (simp add: data_bytes_def strobe_def startup_def lcd_consts)
  with f ok have n: "two_nibble_transfers 0x42 [0x4D, 0x49, 0x2D, 0x29]"
    by (simp del: written_writedata)
  from r p have "r = send always_ok [0x9C, 0x98, 0x2C, 0x28] (0, ?s)" by simp
  then have "written ?s (snd r') = [0x9C, 0x98, 0x2C, 0x28, 0x4D, 0x49, 0x2D, 0x29, 0x7D, 0x79, 0x9D, 0x99]"
    unfolding w
    by (simp add: data_bytes_def strobe_def startup_def lcd_consts)
  with r' h ok n show ?thesis by simp
qed

subsection \<open>The cursor position and the row table\<close>

text \<open>C4. For a row index from 0 to 3 and any column index,
  \<open>lcd44780setpos\<close> sends one command byte through
  \<open>lcd44780writecmd4\<close>: the byte \<open>0x80 | (rowstart[rowIdx] + colIdx)\<close>,
  the sum and the OR computed in \<open>int\<close> and the result stored in a
  \<open>char\<close>, which is 0x80 OR'ed with the eight-bit sum. The bus gains
  exactly four bytes, the high nibble of that byte strobed and then its low
  nibble strobed, the result is the status of the last of the four writes and
  the statics are unchanged. With the backlight static at 0x00 or 0x08 the
  four bytes are two nibble transfers of the command byte with the
  register-select bit clear, and the command byte can be read back from the
  first and third of them. The table is \<open>{0x00, 0x40, 0x14, 0x54}\<close>.\<close>

theorem setpos_command_byte:
  "0 \<le> rowIdx \<and> rowIdx \<le> 3 \<longrightarrow>
     (\<exists>cmd r.
        cmd = (word_of_int (0x80 OR (uint (rowstart ! nat rowIdx) + colIdx)) :: byte) \<and>
        cmd = 0x80 OR (rowstart ! nat rowIdx + word_of_int colIdx) \<and>
        lcd44780setpos dev s rowIdx colIdx = Inr r \<and>
        r = lcd44780writecmd4 dev s cmd \<and>
        bus (snd r) = bus s @
          [(cmd AND 0xF0) OR bl44780 s OR ENABLE,
           ((cmd AND 0xF0) OR bl44780 s OR ENABLE) AND NOT ENABLE,
           (push_bit 4 cmd AND 0xF0) OR bl44780 s OR ENABLE,
           ((push_bit 4 cmd AND 0xF0) OR bl44780 s OR ENABLE) AND NOT ENABLE] \<and>
        bus (snd r) = bus s @ written s (snd r) \<and>
        length (written s (snd r)) = 4 \<and>
        fst r = dev (butlast (bus (snd r))) (last (bus (snd r))) \<and>
        bl44780 (snd r) = bl44780 s \<and> lcdrows (snd r) = lcdrows s \<and> lcdcols (snd r) = lcdcols s \<and>
        (backlight_ok s \<longrightarrow>
           two_nibble_transfers cmd (written s (snd r)) \<and>
           (\<forall>b \<in> set (written s (snd r)). b AND REGISTERSET = 0) \<and>
           (written s (snd r) ! 0 AND 0xF0) OR drop_bit 4 (written s (snd r) ! 2) = cmd)) \<and>
     rowstart = [0x00, 0x40, 0x14, 0x54]"
proof (intro impI conjI)
  show "rowstart = [0x00, 0x40, 0x14, 0x54]"
    by (simp add: rowstart_def)
next
  assume idx: "0 \<le> rowIdx \<and> rowIdx \<le> 3"
  let ?cmd = "word_of_int (0x80 OR (uint (rowstart ! nat rowIdx) + colIdx)) :: byte"
  let ?bs = "cmd4_bytes (bl44780 s) ?cmd"
  let ?r = "lcd44780writecmd4 dev s ?cmd"
  have r: "?r = send dev ?bs (0, s)"
    by (rule writecmd4_send)
  have ne: "?bs \<noteq> []"
    by (simp add: cmd4_bytes_explicit)
  have 1: "?cmd = 0x80 OR (rowstart ! nat rowIdx + word_of_int colIdx)"
    by (simp add: of_int_or_eq)
  have 2: "lcd44780setpos dev s rowIdx colIdx = Inr ?r"
    using idx by (simp add: setpos_in_table of_int_or_eq DDRAMSETADDR_def)
  have 3: "bus (snd ?r) = bus s @
          [(?cmd AND 0xF0) OR bl44780 s OR ENABLE,
           ((?cmd AND 0xF0) OR bl44780 s OR ENABLE) AND NOT ENABLE,
           (push_bit 4 ?cmd AND 0xF0) OR bl44780 s OR ENABLE,
           ((push_bit 4 ?cmd AND 0xF0) OR bl44780 s OR ENABLE) AND NOT ENABLE]"
    unfolding bus_writecmd4 by (simp only: cmd4_bytes_explicit)
  have 4: "bus (snd ?r) = bus s @ written s (snd ?r)"
    by (simp add: bus_writecmd4)
  have 5: "length (written s (snd ?r)) = 4"
    by simp
  have 6: "fst ?r = dev (butlast (bus (snd ?r))) (last (bus (snd ?r)))"
    unfolding r by (rule fst_send_last [OF ne])
  have 7: "bl44780 (snd ?r) = bl44780 s \<and> lcdrows (snd ?r) = lcdrows s \<and> lcdcols (snd ?r) = lcdcols s"
    unfolding r by simp
  have 8: "backlight_ok s \<longrightarrow>
           two_nibble_transfers ?cmd (written s (snd ?r)) \<and>
           (\<forall>b \<in> set (written s (snd ?r)). b AND REGISTERSET = 0) \<and>
           (written s (snd ?r) ! 0 AND 0xF0) OR drop_bit 4 (written s (snd ?r) ! 2) = ?cmd"
  proof
    assume ok: "backlight_ok s"
    have a: "two_nibble_transfers ?cmd ?bs"
      by (rule cmd4_bytes_two_nibbles [OF ok])
    have b: "\<forall>b \<in> set ?bs. b AND REGISTERSET = 0"
      using cmd4_bytes_register_select [OF ok] by blast
    have c: "(?bs ! 0 AND 0xF0) OR drop_bit 4 (?bs ! 2) = ?cmd"
      by (rule cmd4_bytes_decode [OF ok])
    from a b c show "two_nibble_transfers ?cmd (written s (snd ?r)) \<and>
           (\<forall>b \<in> set (written s (snd ?r)). b AND REGISTERSET = 0) \<and>
           (written s (snd ?r) ! 0 AND 0xF0) OR drop_bit 4 (written s (snd ?r) ! 2) = ?cmd"
      by (simp only: written_writecmd4 simp_thms)
  qed
  from 1 2 3 4 5 6 7 8
  show "\<exists>cmd r.
        cmd = (word_of_int (0x80 OR (uint (rowstart ! nat rowIdx) + colIdx)) :: byte) \<and>
        cmd = 0x80 OR (rowstart ! nat rowIdx + word_of_int colIdx) \<and>
        lcd44780setpos dev s rowIdx colIdx = Inr r \<and>
        r = lcd44780writecmd4 dev s cmd \<and>
        bus (snd r) = bus s @
          [(cmd AND 0xF0) OR bl44780 s OR ENABLE,
           ((cmd AND 0xF0) OR bl44780 s OR ENABLE) AND NOT ENABLE,
           (push_bit 4 cmd AND 0xF0) OR bl44780 s OR ENABLE,
           ((push_bit 4 cmd AND 0xF0) OR bl44780 s OR ENABLE) AND NOT ENABLE] \<and>
        bus (snd r) = bus s @ written s (snd r) \<and>
        length (written s (snd r)) = 4 \<and>
        fst r = dev (butlast (bus (snd r))) (last (bus (snd r))) \<and>
        bl44780 (snd r) = bl44780 s \<and> lcdrows (snd r) = lcdrows s \<and> lcdcols (snd r) = lcdcols s \<and>
        (backlight_ok s \<longrightarrow>
           two_nibble_transfers cmd (written s (snd r)) \<and>
           (\<forall>b \<in> set (written s (snd r)). b AND REGISTERSET = 0) \<and>
           (written s (snd r) ! 0 AND 0xF0) OR drop_bit 4 (written s (snd r) ! 2) = cmd)"
    by blast
qed

theorem setpos_command_byte_witness:
  "(0::int) \<le> 2 \<and> (2::int) \<le> 3 \<and> backlight_ok startup \<and>
   \<not> isl (lcd44780setpos always_ok startup 2 3) \<and>
   bus (snd (projr (lcd44780setpos always_ok startup 2 3))) = [0x9C, 0x98, 0x7C, 0x78] \<and>
   fst (projr (lcd44780setpos always_ok startup 2 3)) = 0 \<and>
   two_nibble_transfers 0x97 [0x9C, 0x98, 0x7C, 0x78] \<and>
   ((0x9C :: byte) AND 0xF0) OR drop_bit 4 (0x7C :: byte) = 0x97"
proof -
  have c: "(word_of_int (0x80 OR (uint (rowstart ! nat 2) + 3)) :: byte) = 0x97"
    by (simp add: rowstart_def)
  from setpos_command_byte [of 2 3 always_ok startup]
  obtain r where p: "lcd44780setpos always_ok startup 2 3 = Inr r"
    and b: "bus (snd r) = bus startup @
          [((0x97 :: byte) AND 0xF0) OR bl44780 startup OR ENABLE,
           (((0x97 :: byte) AND 0xF0) OR bl44780 startup OR ENABLE) AND NOT ENABLE,
           (push_bit 4 (0x97 :: byte) AND 0xF0) OR bl44780 startup OR ENABLE,
           ((push_bit 4 (0x97 :: byte) AND 0xF0) OR bl44780 startup OR ENABLE) AND NOT ENABLE]"
    and w: "bus (snd r) = bus startup @ written startup (snd r)"
    and i: "fst r = always_ok (butlast (bus (snd r))) (last (bus (snd r)))"
    and n: "backlight_ok startup \<longrightarrow>
           two_nibble_transfers 0x97 (written startup (snd r)) \<and>
           (\<forall>b \<in> set (written startup (snd r)). b AND REGISTERSET = 0) \<and>
           (written startup (snd r) ! 0 AND 0xF0) OR drop_bit 4 (written startup (snd r) ! 2) = 0x97"
    unfolding c by auto
  have bs: "bus (snd r) = [0x9C, 0x98, 0x7C, 0x78]"
    unfolding b by (simp add: startup_def lcd_consts)
  then have ws: "written startup (snd r) = [0x9C, 0x98, 0x7C, 0x78]"
    using w by (simp add: startup_def)
  from n backlight_ok_startup
  have "two_nibble_transfers 0x97 [0x9C, 0x98, 0x7C, 0x78] \<and>
        ((0x9C :: byte) AND 0xF0) OR drop_bit 4 (0x7C :: byte) = 0x97"
    unfolding ws by simp
  with p bs i backlight_ok_startup show ?thesis
    by (simp add: always_ok_def)
qed

text \<open>C9. \<open>rows = -1\<close> is at most 4, but it is stored as 255: after
  \<open>lcd44780init(-1, 20)\<close> row 5, column 1 passes validation and
  \<open>lcd44780str\<close> reads \<open>rowstart[4]\<close>.\<close>

theorem negative_rows_counterexample:
  "(- 1 :: int) \<le> 4 \<and>
   ORIGIN \<le> uint (5::byte) \<and>
   uint (5::byte) \<le> ORIGIN + uint (lcdrows (snd (lcd44780init always_ok startup (- 1) 20))) - 1 \<and>
   ORIGIN \<le> uint (1::byte) \<and>
   uint (1::byte) \<le> ORIGIN + uint (lcdcols (snd (lcd44780init always_ok startup (- 1) 20))) - 1 \<and>
   lcd44780str always_ok (snd (lcd44780init always_ok startup (- 1) 20)) [0x41] 5 1 =
     Inl (RowstartOutOfBounds 4)"
proof -
  have "uint (word_of_int (- 1) :: byte) = 255"
    unfolding uint_word_of_int by simp
  then have r: "uint (lcdrows (snd (lcd44780init always_ok startup (- 1) 20))) = 255"
    by simp
  show ?thesis
    unfolding lcd44780str_def r by (simp add: lcd44780setpos_def ORIGIN_def)
qed

text \<open>C9, as the source has it. \<open>lcd44780init\<close> stores \<open>rows\<close> in
  the eight-bit \<open>lcdrows\<close>, which keeps \<open>rows mod 256\<close>. Validation
  compares the row with \<open>lcdrows\<close>, not with the size of \<open>rowstart\<close>:
  while \<open>lcdrows\<close> is at most 4, every call of \<open>lcd44780str\<close> and
  \<open>lcd44780chr\<close> that passes validation indexes \<open>rowstart\<close> at 0 to
  3, and no call reads outside the table; when \<open>lcdrows\<close> is above 4 (and
  there is at least one column) row 5, column 1 passes validation and reads
  \<open>rowstart[4]\<close>. \<open>lcd44780setpos\<close> itself accepts any index and
  reads outside the table for every index below 0 or above 3.\<close>

theorem rowstart_index_within_table:
  "uint (lcdrows (snd (lcd44780init dev s0 rows cols))) = rows mod 256 \<and>
   (uint (lcdrows s) \<le> 4 \<longrightarrow>
      (ORIGIN \<le> uint row \<and> uint row \<le> ORIGIN + uint (lcdrows s) - 1 \<and>
       ORIGIN \<le> uint col \<and> uint col \<le> ORIGIN + uint (lcdcols s) - 1 \<longrightarrow>
         0 \<le> uint row - ORIGIN \<and> uint row - ORIGIN \<le> 3 \<and>
         (\<exists>r. lcd44780setpos dev s (uint row - ORIGIN) (uint col - ORIGIN) = Inr r)) \<and>
      (\<exists>r. lcd44780str dev s writebuf row col = Inr r) \<and>
      (\<exists>r. lcd44780chr dev s writebuf row col = Inr r)) \<and>
   (4 < uint (lcdrows s) \<and> 1 \<le> uint (lcdcols s) \<longrightarrow>
      lcd44780str dev s writebuf 5 1 = Inl (RowstartOutOfBounds 4) \<and>
      lcd44780chr dev s writebuf 5 1 = Inl (RowstartOutOfBounds 4)) \<and>
   (idx < 0 \<or> 3 < idx \<longrightarrow> lcd44780setpos dev s idx c = Inl (RowstartOutOfBounds idx))"
proof -
  have 1: "uint (lcdrows (snd (lcd44780init dev s0 rows cols))) = rows mod 256"
    by (simp add: uint_word_of_int)
  have 2: "0 \<le> uint row - ORIGIN \<and> uint row - ORIGIN \<le> 3 \<and>
         (\<exists>r. lcd44780setpos dev s (uint row - ORIGIN) (uint col - ORIGIN) = Inr r)"
    if "uint (lcdrows s) \<le> 4" "ORIGIN \<le> uint row" "uint row \<le> ORIGIN + uint (lcdrows s) - 1"
       "ORIGIN \<le> uint col" "uint col \<le> ORIGIN + uint (lcdcols s) - 1"
  proof -
    have "uint row \<le> 4" using that by (simp add: ORIGIN_def)
    with that str_chr_in_table(1) [of row s col dev] show ?thesis
      by (simp add: ORIGIN_def)
  qed
  have 3: "(\<exists>r. lcd44780str dev s writebuf row col = Inr r) \<and>
      (\<exists>r. lcd44780chr dev s writebuf row col = Inr r)" if l: "uint (lcdrows s) \<le> 4"
  proof -
    have "ORIGIN \<le> uint row \<and> uint row \<le> ORIGIN + uint (lcdrows s) - 1 \<and> ORIGIN \<le> uint col \<and>
       uint col \<le> ORIGIN + uint (lcdcols s) - 1 \<Longrightarrow> ?thesis"
      using l str_chr_in_table(2,3) [of row s col dev writebuf] by (simp add: ORIGIN_def)
    with str_outcomes [of row dev s writebuf col] show ?thesis
      by (elim disjE) simp_all
  qed
  have 4: "lcd44780str dev s writebuf 5 1 = Inl (RowstartOutOfBounds 4) \<and>
      lcd44780chr dev s writebuf 5 1 = Inl (RowstartOutOfBounds 4)"
    if "4 < uint (lcdrows s)" "1 \<le> uint (lcdcols s)"
    using that by (simp add: lcd44780str_def lcd44780chr_def lcd44780setpos_def ORIGIN_def)
  have 5: "idx < 0 \<or> 3 < idx \<longrightarrow> lcd44780setpos dev s idx c = Inl (RowstartOutOfBounds idx)"
    by (auto simp add: lcd44780setpos_def)
  from 1 2 3 4 5 show ?thesis by blast
qed

theorem rowstart_index_within_table_witness:
  "uint (lcdrows (snd (lcd44780init always_ok startup 4 20))) = 4 \<and>
   \<not> isl (lcd44780str always_ok (snd (lcd44780init always_ok startup 4 20)) [0x41] 4 20) \<and>
   \<not> isl (lcd44780chr always_ok (snd (lcd44780init always_ok startup 4 20)) [0x41] 4 20) \<and>
   4 < uint (lcdrows (snd (lcd44780init always_ok startup 8 20))) \<and>
   lcd44780str always_ok (snd (lcd44780init always_ok startup 8 20)) [0x41] 5 1 =
     Inl (RowstartOutOfBounds 4) \<and>
   lcd44780setpos always_ok (snd (lcd44780init always_ok startup 4 20)) 4 0 =
     Inl (RowstartOutOfBounds 4)"
  using rowstart_index_within_table [where dev = always_ok and ?s0.0 = startup and rows = 4
      and cols = 20 and s = "snd (lcd44780init always_ok startup 4 20)" and row = 4 and col = 20
      and writebuf = "[0x41]" and idx = 4 and c = 0]
    rowstart_index_within_table [where dev = always_ok and ?s0.0 = startup and rows = 8
      and cols = 20 and s = "snd (lcd44780init always_ok startup 8 20)" and row = 5 and col = 1
      and writebuf = "[0x41]" and idx = 4 and c = 0]
  by (auto simp add: ORIGIN_def)

subsection \<open>The backlight\<close>

text \<open>C6. After \<open>lcd44780backlight\<close>, every byte written by any sequence
  of calls of \<open>lcd44780writecmd8\<close>, \<open>lcd44780writecmd4\<close> and
  \<open>lcd44780writedata\<close> has the backlight bit 0x08 clear when the setting
  was 0 and set when it was not; the static is OR'ed into each byte and the
  transfers leave it as it is.\<close>

theorem backlight_bit_persists:
  "bus (snd (transfers dev ts (lcd44780backlight dev s setting))) =
     bus (snd (lcd44780backlight dev s setting)) @
     written (snd (lcd44780backlight dev s setting))
       (snd (transfers dev ts (lcd44780backlight dev s setting))) \<and>
   (\<forall>b \<in> set (written (snd (lcd44780backlight dev s setting))
                  (snd (transfers dev ts (lcd44780backlight dev s setting)))).
      b AND BACKLIGHT = (if setting = 0 then 0x00 else BACKLIGHT) \<and>
      b OR bl44780 (snd (lcd44780backlight dev s setting)) = b) \<and>
   bl44780 (snd (transfers dev ts (lcd44780backlight dev s setting))) =
     (if setting = 0 then 0x00 else BACKLIGHT)"
proof -
  let ?r = "lcd44780backlight dev s setting"
  let ?bl = "if setting = 0 then 0x00 else BACKLIGHT"
  have t: "transfers dev ts ?r = send dev (concat (map (transfer_bytes ?bl) ts)) ?r"
    by (simp only: transfers_send backlight_static)
  have w: "written (snd ?r) (snd (transfers dev ts ?r)) = concat (map (transfer_bytes ?bl) ts)"
    unfolding t by (simp add: written_def)
  have b: "b AND BACKLIGHT = ?bl \<and> b OR ?bl = b" if "b \<in> set (concat (map (transfer_bytes ?bl) ts))" for b
  proof -
    from that obtain t where "b \<in> set (transfer_bytes ?bl t)" by auto
    then have e: "b AND BACKLIGHT = ?bl AND BACKLIGHT" by (rule backlight_bit_of_transfer)
    have "?bl AND BACKLIGHT = ?bl" by (simp add: BACKLIGHT_def)
    with e have 1: "b AND BACKLIGHT = ?bl" by simp
    have "b OR (b AND BACKLIGHT) = b" by (rule byte_eqI; auto simp add: bit_simps)
    with 1 show ?thesis by simp
  qed
  show ?thesis
    unfolding w using b by (simp add: t backlight_static)
qed

theorem backlight_bit_persists_witness:
  "written (snd (lcd44780backlight always_ok startup 0))
     (snd (transfers always_ok [Cmd8 0x03, Cmd4 0x41, Data 0x41] (lcd44780backlight always_ok startup 0)))
     = [0x34, 0x30, 0x44, 0x40, 0x14, 0x10, 0x45, 0x41, 0x15, 0x11] \<and>
   (0x34::byte) AND BACKLIGHT = 0 \<and>
   written (snd (lcd44780backlight always_ok startup 7))
     (snd (transfers always_ok [Cmd8 0x03, Cmd4 0x41, Data 0x41] (lcd44780backlight always_ok startup 7)))
     = [0x3C, 0x38, 0x4C, 0x48, 0x1C, 0x18, 0x4D, 0x49, 0x1D, 0x19] \<and>
   (0x3C::byte) AND BACKLIGHT = BACKLIGHT"
proof -
  let ?off = "lcd44780backlight always_ok startup 0"
  let ?on = "lcd44780backlight always_ok startup 7"
  let ?ts = "[Cmd8 0x03, Cmd4 0x41, Data 0x41]"
  have off: "written (snd ?off) (snd (transfers always_ok ?ts ?off))
      = [0x34, 0x30, 0x44, 0x40, 0x14, 0x10, 0x45, 0x41, 0x15, 0x11]"
    by (simp add: transfers_send backlight_static written_def cmd8_bytes_def cmd4_bytes_def
        data_bytes_def strobe_def lcd_consts)
  have on: "written (snd ?on) (snd (transfers always_ok ?ts ?on))
      = [0x3C, 0x38, 0x4C, 0x48, 0x1C, 0x18, 0x4D, 0x49, 0x1D, 0x19]"
    by (simp add: transfers_send backlight_static written_def cmd8_bytes_def cmd4_bytes_def
        data_bytes_def strobe_def lcd_consts)
  have "(0x34::byte) AND BACKLIGHT = 0"
    using backlight_bit_persists [of always_ok ?ts startup 0] unfolding off by simp
  moreover have "(0x3C::byte) AND BACKLIGHT = BACKLIGHT"
    using backlight_bit_persists [of always_ok ?ts startup 7] unfolding on by simp
  ultimately show ?thesis using off on by simp
qed

subsection \<open>Initialisation\<close>

text \<open>C7. The third 4-bit command of \<open>lcd44780init\<close> is the entry-mode
  command. Started from the power-on statics it goes out as the four bytes
  0x0C 0x08 0x4C 0x48, the strobes of the command 0x04, in which the bits
  \<open>ENTRYINC\<close> and \<open>ENTRYLEFT\<close> are both clear; a command with the
  increment flag OR'ed in would go out with 0x7C 0x78 or 0x5C 0x58 as its
  low nibble.\<close>

theorem init_entry_mode_counterexample:
  "take 4 (drop 16 (written startup (snd (lcd44780init always_ok startup 4 20)))) =
     [0x0C, 0x08, 0x4C, 0x48] \<and>
   written startup (snd (lcd44780writecmd4 always_ok startup (ENTRYMODESET OR ENTRYINC OR ENTRYLEFT))) =
     [0x0C, 0x08, 0x7C, 0x78] \<and>
   written startup (snd (lcd44780writecmd4 always_ok startup (ENTRYMODESET OR ENTRYINC OR ENTRYRIGHT))) =
     [0x0C, 0x08, 0x5C, 0x58] \<and>
   written startup (snd (lcd44780writecmd4 always_ok startup 0x04)) =
     [0x0C, 0x08, 0x4C, 0x48] \<and>
   (0x04 :: byte) AND ENTRYINC = 0 \<and> (0x04 :: byte) AND ENTRYLEFT = 0 \<and>
   take 4 (drop 16 (written startup (snd (lcd44780init always_ok startup 4 20)))) \<noteq>
     written startup (snd (lcd44780writecmd4 always_ok startup (ENTRYMODESET OR ENTRYINC OR ENTRYLEFT)))"
  by (simp add: written_init startup_def cmd4_bytes_def strobe_def lcd_consts)

text \<open>C7, as the source has it. \<open>lcd44780init\<close> writes what the nine
  transfers below write, in this order; the seventh is the entry-mode command
  \<open>ENTRYMODESET | ENTRYRIGHT\<close> (commented "left to right" in the source),
  the byte 0x04, in which the \<open>ENTRYINC\<close> bit is not set.\<close>

theorem init_entry_mode_command:
  "written s (snd (lcd44780init dev s rows cols)) =
     written s (snd (transfers dev
       [Cmd8 (drop_bit 4 (FUNCTIONSET OR EIGHTBIT) AND 0x0F),
        Cmd8 (drop_bit 4 (FUNCTIONSET OR EIGHTBIT) AND 0x0F),
        Cmd8 (drop_bit 4 (FUNCTIONSET OR EIGHTBIT) AND 0x0F),
        Cmd8 (drop_bit 4 (FUNCTIONSET OR FOURBIT) AND 0x0F),
        Cmd4 (FUNCTIONSET OR FOURBIT OR TWOLINE),
        Cmd4 (DISPLAYCONTROL OR DISPLAYOFF OR CURSOROFF OR BLINKOFF),
        Cmd4 (ENTRYMODESET OR ENTRYRIGHT),
        Cmd4 CLEARDISPLAY,
        Cmd4 (DISPLAYCONTROL OR DISPLAYON OR BLINKOFF OR CURSOROFF)] (0, s))) \<and>
   take 4 (drop 16 (written s (snd (lcd44780init dev s rows cols)))) =
     written s (snd (lcd44780writecmd4 dev s (ENTRYMODESET OR ENTRYRIGHT))) \<and>
   ENTRYMODESET OR ENTRYRIGHT = (0x04 :: byte) \<and>
   (ENTRYMODESET OR ENTRYRIGHT) AND ENTRYINC = 0"
  by (simp add: written_init transfers_send cmd8_bytes_def cmd4_bytes_def strobe_def lcd_consts)

text \<open>C8. Whatever statuses the transport reports, \<open>lcd44780init\<close>
  writes the same 28 bytes, each once and in the same order (fourteen strobes:
  four 8-bit-mode commands, then five 4-bit commands of two nibbles each), and
  returns the status of the last of these writes, which belongs to the closing
  display-control command (display on, blink off, cursor off). No earlier
  status stops the sequence, repeats a write or reaches the result.\<close>

theorem init_returns_last_status:
  "bus (snd (lcd44780init dev s rows cols)) =
     bus s @ concat (map (\<lambda>n. strobe (n OR bl44780 s))
       [0x30, 0x30, 0x30, 0x20, 0x20, 0x80, 0x00, 0x80, 0x00, 0x40, 0x00, 0x10, 0x00, 0xC0]) \<and>
   fst (lcd44780init dev s rows cols) =
     dev (butlast (bus (snd (lcd44780init dev s rows cols))))
         (last (bus (snd (lcd44780init dev s rows cols)))) \<and>
   drop 24 (written s (snd (lcd44780init dev s rows cols))) =
     written s (snd (lcd44780writecmd4 dev s (DISPLAYCONTROL OR DISPLAYON OR BLINKOFF OR CURSOROFF)))"
proof -
  let ?bs = "concat (map (\<lambda>n. strobe (n OR bl44780 s))
       [0x30, 0x30, 0x30, 0x20, 0x20, 0x80, 0x00, 0x80, 0x00, 0x40, 0x00, 0x10, 0x00, 0xC0])"
  let ?s0 = "s\<lparr>lcdrows := word_of_int rows, lcdcols := word_of_int cols\<rparr>"
  have i: "lcd44780init dev s rows cols = send dev ?bs (0, ?s0)"
    by (rule init_send)
  have ne: "?bs \<noteq> []"
    by (simp add: strobe_def)
  have 1: "bus (snd (lcd44780init dev s rows cols)) = bus s @ ?bs"
    unfolding i by simp
  have 2: "fst (lcd44780init dev s rows cols) =
     dev (butlast (bus (snd (lcd44780init dev s rows cols))))
         (last (bus (snd (lcd44780init dev s rows cols))))"
    unfolding i by (rule fst_send_last [OF ne])
  have 3: "drop 24 (written s (snd (lcd44780init dev s rows cols))) =
     written s (snd (lcd44780writecmd4 dev s (DISPLAYCONTROL OR DISPLAYON OR BLINKOFF OR CURSOROFF)))"
    unfolding written_init by (simp add: strobe_def cmd4_bytes_def lcd_consts)
  from 1 2 3 show ?thesis by blast
qed

end
